theory Spec2Isabelle
  imports Main
begin

section \<open>Regular expressions of the configuration\<close>

text \<open>
  This theory embeds the configuration resolver and the three hooks of the repository:
  \<^item> \<open>src/configs/common.config.js\<close> holds two modules, the base configuration
    (\<open>common.config.js\<close>) and the resolver with its merge engine (\<open>hooks-config.js\<close>);
  \<^item> \<open>src/scripts/utils/config-loader.js\<close> detects the project type;
  \<^item> \<open>src/hooks/pre-commit.js\<close> and \<open>src/unnamed/part_002\<close> (\<open>hooks/pre-push.js\<close>)
    are the two hook runners;
  \<^item> \<open>src/unnamed/part_000\<close> (\<open>commit-msg.js\<close>) is the commit message validator.

  The repository's patterns are JavaScript regular expression literals. A compiled
  \<open>RegExp\<close> object is modelled by the syntax tree of its source together with its flags.
  The matcher below is a backtracking matcher in the order of the ECMAScript
  specification (alternatives left to right, greedy quantifiers longest first, lazy ones
  shortest first); it returns the successes in priority order, so the head of the list is
  the match the engine reports. Strings are lists of 8-bit characters, the code units
  below 256 (a text with any other character is outside the model); only the flag
  \<open>i\<close> is interpreted, every other flag makes the model give up with \<open>Unmodelled\<close>.
\<close>

datatype rx =
    Chr char
  | Dot
  | Cls "char list"
  | Bol
  | Eol
  | Seq rx rx
  | Alt rx rx
  | Opt rx
  | Star rx
  | Plus rx
  | LazyStar rx
  | Grp nat rx

type_synonym caps = "string option list"

text \<open>
  With the flag \<open>i\<close> two code units match when their upper-case forms are equal.
  Below 256 the letters with an upper-case form of their own are \<open>a\<close> to \<open>z\<close> and the
  Latin-1 letters from \<open>0xE0\<close> to \<open>0xFE\<close> (the division sign \<open>0xF7\<close> is no letter); the
  micro sign, the sharp s and the y with diaeresis have none below 256 and match only
  themselves.
\<close>

definition latin_small :: "char list" where
  "latin_small =
     [CHR 0xE0, CHR 0xE1, CHR 0xE2, CHR 0xE3, CHR 0xE4, CHR 0xE5, CHR 0xE6, CHR 0xE7,
      CHR 0xE8, CHR 0xE9, CHR 0xEA, CHR 0xEB, CHR 0xEC, CHR 0xED, CHR 0xEE, CHR 0xEF,
      CHR 0xF0, CHR 0xF1, CHR 0xF2, CHR 0xF3, CHR 0xF4, CHR 0xF5, CHR 0xF6, CHR 0xF8,
      CHR 0xF9, CHR 0xFA, CHR 0xFB, CHR 0xFC, CHR 0xFD, CHR 0xFE]"

definition latin_capital :: "char list" where
  "latin_capital =
     [CHR 0xC0, CHR 0xC1, CHR 0xC2, CHR 0xC3, CHR 0xC4, CHR 0xC5, CHR 0xC6, CHR 0xC7,
      CHR 0xC8, CHR 0xC9, CHR 0xCA, CHR 0xCB, CHR 0xCC, CHR 0xCD, CHR 0xCE, CHR 0xCF,
      CHR 0xD0, CHR 0xD1, CHR 0xD2, CHR 0xD3, CHR 0xD4, CHR 0xD5, CHR 0xD6, CHR 0xD8,
      CHR 0xD9, CHR 0xDA, CHR 0xDB, CHR 0xDC, CHR 0xDD, CHR 0xDE]"

definition upcase :: "char \<Rightarrow> char" where
  "upcase c =
     (case map_of (zip (''abcdefghijklmnopqrstuvwxyz'' @ latin_small)
                       (''ABCDEFGHIJKLMNOPQRSTUVWXYZ'' @ latin_capital)) c of
        None \<Rightarrow> c | Some u \<Rightarrow> u)"

definition chr_eq :: "bool \<Rightarrow> char \<Rightarrow> char \<Rightarrow> bool" where
  "chr_eq ci a b = (if ci then upcase a = upcase b else a = b)"

definition line_terminator :: "char \<Rightarrow> bool" where
  "line_terminator c = (c = CHR 0x0A \<or> c = CHR 0x0D)"

definition substring :: "string \<Rightarrow> nat \<Rightarrow> nat \<Rightarrow> string" where
  "substring s i j = take (j - i) (drop i s)"

text \<open>One character of the input at position \<open>p\<close>, when it satisfies \<open>ok\<close>.\<close>

definition step_char :: "(char \<Rightarrow> bool) \<Rightarrow> string \<Rightarrow> nat \<Rightarrow> caps \<Rightarrow> (nat \<times> caps) list" where
  "step_char ok s p c = (if p < length s \<and> ok (s ! p) then [(Suc p, c)] else [])"

text \<open>
  Greedy and lazy iteration. An iteration that consumes nothing is rejected, as in
  ECMAScript, so \<open>length s - p\<close> iterations always suffice and the fuel never runs out.
\<close>

primrec star_iter ::
  "nat \<Rightarrow> (nat \<Rightarrow> caps \<Rightarrow> (nat \<times> caps) list) \<Rightarrow> nat \<Rightarrow> caps \<Rightarrow> (nat \<times> caps) list" where
  "star_iter 0 f p c = [(p, c)]"
| "star_iter (Suc n) f p c =
     concat (map (\<lambda>(p', c'). if p < p' then star_iter n f p' c' else []) (f p c)) @ [(p, c)]"

primrec lazy_iter ::
  "nat \<Rightarrow> (nat \<Rightarrow> caps \<Rightarrow> (nat \<times> caps) list) \<Rightarrow> nat \<Rightarrow> caps \<Rightarrow> (nat \<times> caps) list" where
  "lazy_iter 0 f p c = [(p, c)]"
| "lazy_iter (Suc n) f p c =
     (p, c) # concat (map (\<lambda>(p', c'). if p < p' then lazy_iter n f p' c' else []) (f p c))"

primrec rx_run :: "rx \<Rightarrow> bool \<Rightarrow> string \<Rightarrow> nat \<Rightarrow> caps \<Rightarrow> (nat \<times> caps) list" where
  "rx_run (Chr a) ci s = step_char (chr_eq ci a) s"
| "rx_run Dot ci s = step_char (\<lambda>x. \<not> line_terminator x) s"
| "rx_run (Cls as) ci s = step_char (\<lambda>x. \<exists>a \<in> set as. chr_eq ci a x) s"
| "rx_run Bol ci s = (\<lambda>p c. if p = 0 then [(p, c)] else [])"
| "rx_run Eol ci s = (\<lambda>p c. if p = length s then [(p, c)] else [])"
| "rx_run (Seq a b) ci s =
     (\<lambda>p c. concat (map (\<lambda>(p', c'). rx_run b ci s p' c') (rx_run a ci s p c)))"
| "rx_run (Alt a b) ci s = (\<lambda>p c. rx_run a ci s p c @ rx_run b ci s p c)"
| "rx_run (Opt a) ci s = (\<lambda>p c. rx_run a ci s p c @ [(p, c)])"
| "rx_run (Star a) ci s = (\<lambda>p c. star_iter (length s - p) (rx_run a ci s) p c)"
| "rx_run (Plus a) ci s =
     (\<lambda>p c. concat (map (\<lambda>(p', c'). star_iter (length s - p') (rx_run a ci s) p' c')
                 (rx_run a ci s p c)))"
| "rx_run (LazyStar a) ci s = (\<lambda>p c. lazy_iter (length s - p) (rx_run a ci s) p c)"
| "rx_run (Grp n a) ci s =
     (\<lambda>p c. map (\<lambda>(p', c'). (p', c'[n := Some (substring s p p')])) (rx_run a ci s p c))"

text \<open>The number of capture groups: one more than the largest group index.\<close>

primrec rx_groups :: "rx \<Rightarrow> nat" where
  "rx_groups (Chr a) = 0"
| "rx_groups Dot = 0"
| "rx_groups (Cls as) = 0"
| "rx_groups Bol = 0"
| "rx_groups Eol = 0"
| "rx_groups (Seq a b) = max (rx_groups a) (rx_groups b)"
| "rx_groups (Alt a b) = max (rx_groups a) (rx_groups b)"
| "rx_groups (Opt a) = rx_groups a"
| "rx_groups (Star a) = rx_groups a"
| "rx_groups (Plus a) = rx_groups a"
| "rx_groups (LazyStar a) = rx_groups a"
| "rx_groups (Grp n a) = max (Suc n) (rx_groups a)"


datatype regexp = RegExp rx string

datatype error = TypeError | SyntaxError | SystemError string | Timeout | StackOverflow | Unmodelled

text \<open>
  \<open>RegExp.prototype.exec\<close> on a fresh object (\<open>lastIndex = 0\<close>): the leftmost start
  position with a success, and there the first success. The result is the match array:
  element 0 is the matched text, element \<open>n + 1\<close> is the text of \<open>Grp n\<close>, with
  \<open>None\<close> for \<open>undefined\<close>.
\<close>

primrec rx_search :: "rx \<Rightarrow> bool \<Rightarrow> string \<Rightarrow> nat \<Rightarrow> nat \<Rightarrow> (nat \<times> nat \<times> caps) option" where
  "rx_search r ci s 0 p = None"
| "rx_search r ci s (Suc n) p =
     (case rx_run r ci s p (replicate (rx_groups r) None) of
        [] \<Rightarrow> rx_search r ci s n (Suc p)
      | (e, c) # _ \<Rightarrow> Some (p, e, c))"

definition flags_modelled :: "string \<Rightarrow> bool" where
  "flags_modelled flags = (set flags \<subseteq> {CHR ''i''})"

fun regexp_exec :: "regexp \<Rightarrow> string \<Rightarrow> error + (string option list) option" where
  "regexp_exec (RegExp r flags) s =
     (if \<not> flags_modelled flags then Inl Unmodelled
      else Inr (map_option (\<lambda>(p, e, c). Some (substring s p e) # c)
                  (rx_search r (CHR ''i'' \<in> set flags) s (Suc (length s)) 0)))"

definition regexp_test :: "regexp \<Rightarrow> string \<Rightarrow> error + bool" where
  "regexp_test re s = map_sum id (\<lambda>m. m \<noteq> None) (regexp_exec re s)"

text \<open>\<open>re.test(s)\<close> for a regular expression literal without flags, or with \<open>i\<close> only.\<close>

definition rx_matches :: "rx \<Rightarrow> bool \<Rightarrow> string \<Rightarrow> bool" where
  "rx_matches r ci s = (rx_search r ci s (Suc (length s)) 0 \<noteq> None)"

definition lit :: "string \<Rightarrow> rx" where
  "lit s = foldr (\<lambda>c r. Seq (Chr c) r) (butlast s) (Chr (last s))"

definition alts :: "rx list \<Rightarrow> rx" where
  "alts rs = foldr Alt (butlast rs) (last rs)"

definition seqs :: "rx list \<Rightarrow> rx" where
  "seqs rs = foldr Seq (butlast rs) (last rs)"

section \<open>JavaScript values\<close>

text \<open>
  Configuration trees are JavaScript values: \<open>undefined\<close>, \<open>null\<close>, booleans, numbers,
  strings, regular expressions, arrays and plain objects. The configuration's numbers are
  integers, and \<open>JNum n\<close> is the number of value \<open>n\<close>; fractions, \<open>NaN\<close> and the
  infinities are outside the model. An object is the list of its own enumerable string-keyed properties in
  the order the engine lists them. Values are trees: object identity is not part of this
  model, and where the source's result depends on it the model says so (\<open>Unmodelled\<close>).
  There are no function values: a configuration is data.
\<close>

datatype json =
    JUndef
  | JNull
  | JBool bool
  | JNum int
  | JStr string
  | JRegExp regexp
  | JArr "json list"
  | JObj "(string \<times> json) list"

fun truthy :: "json \<Rightarrow> bool" where
  "truthy JUndef = False"
| "truthy JNull = False"
| "truthy (JBool b) = b"
| "truthy (JNum n) = (n \<noteq> 0)"
| "truthy (JStr s) = (s \<noteq> [])"
| "truthy _ = True"

fun isObject :: "json \<Rightarrow> bool" where
  "isObject (JObj ps) = True"
| "isObject (JRegExp re) = True"
| "isObject _ = False"

fun isArray :: "json \<Rightarrow> bool" where
  "isArray (JArr xs) = True"
| "isArray _ = False"

text \<open>Reading an own property of an object; \<open>undefined\<close> when there is none.\<close>

definition own :: "(string \<times> json) list \<Rightarrow> string \<Rightarrow> json" where
  "own ps k = (case map_of ps k of None \<Rightarrow> JUndef | Some v \<Rightarrow> v)"

text \<open>
  \<open>v.k\<close> and \<open>v?.k\<close> for the fixed keys the hooks read (\<open>enabled\<close>, \<open>checks\<close>,
  \<open>name\<close>, \<open>critical\<close>, ...): none of them is a property of a string, a number, an
  array or a regular expression, nor of \<open>Object.prototype\<close>.
\<close>

fun get_prop :: "json \<Rightarrow> string \<Rightarrow> error + json" where
  "get_prop JUndef k = Inl TypeError"
| "get_prop JNull k = Inl TypeError"
| "get_prop (JObj ps) k = Inr (own ps k)"
| "get_prop _ k = Inr JUndef"

fun opt_prop :: "json \<Rightarrow> string \<Rightarrow> json" where
  "opt_prop (JObj ps) k = own ps k"
| "opt_prop _ k = JUndef"

section \<open>String helpers\<close>

text \<open>
  \<open>trim\<close> removes white space and line terminators at both ends. A character of this
  model is a code unit below 256; of the characters ECMAScript removes, those below 256
  are the tab, the line feed, the vertical tab, the form feed, the carriage return, the
  space and the no-break space.
\<close>

definition whitespace :: "char \<Rightarrow> bool" where
  "whitespace c =
     (c \<in> set [CHR 0x09, CHR 0x0A, CHR 0x0B, CHR 0x0C, CHR 0x0D, CHR 0x20, CHR 0xA0])"

definition trim :: "string \<Rightarrow> string" where
  "trim s = rev (dropWhile whitespace (rev (dropWhile whitespace s)))"

text \<open>\<open>s.replace(pat, "")\<close> with a string pattern: the first occurrence is removed.\<close>

fun remove_first :: "string \<Rightarrow> string \<Rightarrow> string" where
  "remove_first pat [] = []"
| "remove_first pat (x # xs) =
     (if take (length pat) (x # xs) = pat then drop (length pat) (x # xs)
      else x # remove_first pat xs)"

fun is_substring :: "string \<Rightarrow> string \<Rightarrow> bool" where
  "is_substring pat [] = (pat = [])"
| "is_substring pat (x # xs) = (take (length pat) (x # xs) = pat \<or> is_substring pat xs)"


section \<open>Numbers and keys as strings\<close>

definition digit_char :: "nat \<Rightarrow> char" where
  "digit_char n = ''0123456789'' ! n"

text \<open>The decimal digits of an integer that is not negative.\<close>

function show_digits :: "int \<Rightarrow> string" where
  "show_digits n =
     (if n < 10 then [digit_char (nat n)]
      else show_digits (n div 10) @ [digit_char (nat (n mod 10))])"
  by pat_completeness auto
termination
  by (relation "measure nat") auto

definition show_nat :: "nat \<Rightarrow> string" where
  "show_nat n = show_digits (int n)"

definition show_int :: "int \<Rightarrow> string" where
  "show_int i = (if i < 0 then CHR ''-'' # show_digits (- i) else show_digits i)"

text \<open>
  The text of a number is its decimal digits as long as its magnitude is at most \<open>2^53\<close>:
  up to there every integer is a double and is printed in full. Beyond, the engine rounds
  the digits or uses exponent notation, and the model does not follow it.
\<close>

definition safe_integer :: "int \<Rightarrow> bool" where
  "safe_integer n = (- 9007199254740992 \<le> n \<and> n \<le> 9007199254740992)"

definition number_text :: "int \<Rightarrow> error + string" where
  "number_text n = (if safe_integer n then Inr (show_int n) else Inl Unmodelled)"

text \<open>
  An array index is a canonical numeric string below \<open>2^32 - 1\<close>. The engine lists the
  array-index keys of an object first, in ascending order, and the other keys after them
  in insertion order; a property list of this model is in that order.
\<close>

fun parse_nat :: "string \<Rightarrow> int \<Rightarrow> int option" where
  "parse_nat [] acc = Some acc"
| "parse_nat (c # cs) acc =
     (case map_of (zip ''0123456789'' [0, 1, 2, 3, 4, 5, 6, 7, 8, 9]) c of
        None \<Rightarrow> None
      | Some d \<Rightarrow> parse_nat cs (10 * acc + d))"

definition array_index :: "string \<Rightarrow> int option" where
  "array_index s =
     (if s = [] \<or> (hd s = CHR ''0'' \<and> 1 < length s) then None
      else case parse_nat s 0 of
             None \<Rightarrow> None
           | Some n \<Rightarrow> if n < 4294967295 then Some n else None)"

text \<open>A new array-index key goes before the first key that is no smaller index.\<close>

fun insert_index :: "int \<Rightarrow> string \<Rightarrow> 'a \<Rightarrow> (string \<times> 'a) list \<Rightarrow> (string \<times> 'a) list" where
  "insert_index n k v [] = [(k, v)]"
| "insert_index n k v ((k', v') # ps) =
     (case array_index k' of
        None \<Rightarrow> (k, v) # (k', v') # ps
      | Some m \<Rightarrow> if m < n then (k', v') # insert_index n k v ps else (k, v) # (k', v') # ps)"

fun replace_value :: "(string \<times> 'a) list \<Rightarrow> string \<Rightarrow> 'a \<Rightarrow> (string \<times> 'a) list" where
  "replace_value [] k v = []"
| "replace_value ((k', v') # ps) k v =
     (if k' = k then (k, v) # ps else (k', v') # replace_value ps k v)"

text \<open>
  Defining the data property \<open>k\<close> of an object (an object literal, a spread, or an
  assignment that meets no setter): an existing key keeps its place, a new key goes to
  its place in the order above.
\<close>

definition assign :: "(string \<times> 'a) list \<Rightarrow> string \<Rightarrow> 'a \<Rightarrow> (string \<times> 'a) list" where
  "assign ps k v =
     (if k \<in> fst ` set ps then replace_value ps k v
      else case array_index k of
             None \<Rightarrow> ps @ [(k, v)]
           | Some n \<Rightarrow> insert_index n k v ps)"

text \<open>
  The own enumerable properties a spread \<open>{...v}\<close> copies: those of an object, the
  elements of an array and the characters of a string under their indices, none for
  anything else (a regular expression has no enumerable property of its own).
\<close>

fun own_props :: "json \<Rightarrow> (string \<times> json) list" where
  "own_props (JObj ps) = ps"
| "own_props (JArr xs) = zip (map show_nat [0 ..< length xs]) xs"
| "own_props (JStr s) = zip (map show_nat [0 ..< length s]) (map (\<lambda>c. JStr [c]) s)"
| "own_props _ = []"

text \<open>\<open>{...out, ...v}\<close>: the properties of \<open>v\<close> defined one by one on \<open>out\<close>.\<close>

definition define_props :: "(string \<times> 'a) list \<Rightarrow> (string \<times> 'a) list \<Rightarrow> (string \<times> 'a) list" where
  "define_props out qs = fold (\<lambda>(k, x) acc. assign acc k x) qs out"

definition spread_into :: "(string \<times> json) list \<Rightarrow> json \<Rightarrow> (string \<times> json) list" where
  "spread_into out v = define_props out (own_props v)"

section \<open>JSON.stringify\<close>

definition hex_char :: "nat \<Rightarrow> char" where
  "hex_char n = ''0123456789abcdef'' ! n"

definition escape_char :: "char \<Rightarrow> string" where
  "escape_char c =
     (if c = CHR 0x22 then [CHR 0x5C, CHR 0x22]
      else if c = CHR 0x5C then [CHR 0x5C, CHR 0x5C]
      else if c = CHR 0x08 then [CHR 0x5C, CHR ''b'']
      else if c = CHR 0x0C then [CHR 0x5C, CHR ''f'']
      else if c = CHR 0x0A then [CHR 0x5C, CHR ''n'']
      else if c = CHR 0x0D then [CHR 0x5C, CHR ''r'']
      else if c = CHR 0x09 then [CHR 0x5C, CHR ''t'']
      else if (of_char c :: nat) < 32
        then [CHR 0x5C, CHR ''u'', CHR ''0'', CHR ''0'',
              hex_char ((of_char c :: nat) div 16), hex_char ((of_char c :: nat) mod 16)]
      else [c])"

definition quote :: "string \<Rightarrow> string" where
  "quote s = [CHR 0x22] @ concat (map escape_char s) @ [CHR 0x22]"

fun join :: "string \<Rightarrow> string list \<Rightarrow> string" where
  "join sep [] = []"
| "join sep [x] = x"
| "join sep (x # y # ys) = x @ sep @ join sep (y # ys)"

text \<open>
  \<open>None\<close> is \<open>undefined\<close>: the result for \<open>undefined\<close> itself. Inside an array
  \<open>undefined\<close> is written \<open>null\<close>, inside an object the property is left out. A regular
  expression is an object without enumerable properties. The only error is that of a
  number whose text the model does not hold.
\<close>

fun stringify :: "json \<Rightarrow> error + string option"
  and stringify_elems :: "json list \<Rightarrow> error + string list"
  and stringify_props :: "(string \<times> json) list \<Rightarrow> error + string list" where
  "stringify JUndef = Inr None"
| "stringify JNull = Inr (Some ''null'')"
| "stringify (JBool b) = Inr (Some (if b then ''true'' else ''false''))"
| "stringify (JNum n) = map_sum id Some (number_text n)"
| "stringify (JStr s) = Inr (Some (quote s))"
| "stringify (JRegExp re) = Inr (Some ''{}'')"
| "stringify (JArr xs) =
     (case stringify_elems xs of
        Inl e \<Rightarrow> Inl e
      | Inr ts \<Rightarrow> Inr (Some (''['' @ join '','' ts @ '']'')))"
| "stringify (JObj ps) =
     (case stringify_props ps of
        Inl e \<Rightarrow> Inl e
      | Inr ts \<Rightarrow> Inr (Some (''{'' @ join '','' ts @ ''}'')))"
| "stringify_elems [] = Inr []"
| "stringify_elems (x # xs) =
     (case stringify x of
        Inl e \<Rightarrow> Inl e
      | Inr r \<Rightarrow>
          (case stringify_elems xs of
             Inl e \<Rightarrow> Inl e
           | Inr ts \<Rightarrow> Inr ((case r of None \<Rightarrow> ''null'' | Some t \<Rightarrow> t) # ts)))"
| "stringify_props [] = Inr []"
| "stringify_props ((k, v) # ps) =
     (case stringify v of
        Inl e \<Rightarrow> Inl e
      | Inr r \<Rightarrow>
          (case stringify_props ps of
             Inl e \<Rightarrow> Inl e
           | Inr ts \<Rightarrow> Inr (case r of None \<Rightarrow> ts | Some t \<Rightarrow> (quote k @ '':'' @ t) # ts)))"

section \<open>The merge engine (hooks-config.js, in src/configs/common.config.js)\<close>

fun is_primitive :: "json \<Rightarrow> bool" where
  "is_primitive (JObj ps) = False"
| "is_primitive (JArr xs) = False"
| "is_primitive (JRegExp re) = False"
| "is_primitive _ = True"

text \<open>
  \<open>===\<close> and the key comparison of a \<open>Map\<close>: primitives are compared by value, objects
  by identity. Two different trees are different objects; whether two equal trees are
  one object the model cannot tell (\<open>None\<close>).
\<close>

definition same_value :: "json \<Rightarrow> json \<Rightarrow> bool option" where
  "same_value a b = (if a \<noteq> b then Some False else if is_primitive a then Some True else None)"

text \<open>\<open>unique.set(key, item)\<close>: a key already in the map keeps its place.\<close>

fun map_set :: "(json \<times> json) list \<Rightarrow> json \<Rightarrow> json \<Rightarrow> error + (json \<times> json) list" where
  "map_set [] k v = Inr [(k, v)]"
| "map_set ((k', v') # m) k v =
     (case same_value k' k of
        None \<Rightarrow> Inl Unmodelled
      | Some True \<Rightarrow> Inr ((k', v) # m)
      | Some False \<Rightarrow>
          (case map_set m k v of Inl e \<Rightarrow> Inl e | Inr m' \<Rightarrow> Inr ((k', v') # m')))"

text \<open>
  The key of an item: its \<open>name\<close> when the item is an object with a truthy \<open>name\<close>
  (arrays and regular expressions have none), else \<open>JSON.stringify(item)\<close>.
\<close>

definition stringify_key :: "json \<Rightarrow> error + json" where
  "stringify_key item =
     (case stringify item of
        Inl e \<Rightarrow> Inl e
      | Inr None \<Rightarrow> Inr JUndef
      | Inr (Some t) \<Rightarrow> Inr (JStr t))"

fun item_key :: "json \<Rightarrow> error + json" where
  "item_key (JObj ps) =
     (if truthy (own ps ''name'') then Inr (own ps ''name'') else stringify_key (JObj ps))"
| "item_key item = stringify_key item"

fun fill_map :: "json list \<Rightarrow> (json \<times> json) list \<Rightarrow> error + (json \<times> json) list" where
  "fill_map [] m = Inr m"
| "fill_map (item # items) m =
     (case item_key item of
        Inl e \<Rightarrow> Inl e
      | Inr key \<Rightarrow>
          (case map_set m key item of Inl e \<Rightarrow> Inl e | Inr m' \<Rightarrow> fill_map items m'))"

definition mergeArrays :: "json list \<Rightarrow> json list \<Rightarrow> error + json list" where
  "mergeArrays arr1 arr2 =
     (case fill_map (arr1 @ arr2) [] of Inl e \<Rightarrow> Inl e | Inr unique \<Rightarrow> Inr (map snd unique))"

text \<open>
  \<open>key in target\<close> and \<open>target[key]\<close> also see inherited properties. For a key that is
  not an own property: \<open>Absent\<close> when no prototype has it; \<open>NonObject\<close> when the inherited
  value is a function, a boolean or a number, for which \<open>deepMerge(value, x)\<close> is the empty
  object; \<open>Unknown\<close> for \<open>__proto__\<close> and for the \<open>source\<close> and \<open>flags\<close> of a regular
  expression, whose values this model does not hold.
\<close>

datatype inherited = Absent | NonObject | Unknown

definition object_prototype_keys :: "string list" where
  "object_prototype_keys =
     [''constructor'', ''__defineGetter__'', ''__defineSetter__'', ''hasOwnProperty'',
      ''__lookupGetter__'', ''__lookupSetter__'', ''isPrototypeOf'', ''propertyIsEnumerable'',
      ''toString'', ''valueOf'', ''toLocaleString'']"

definition regexp_prototype_keys :: "string list" where
  "regexp_prototype_keys =
     [''lastIndex'', ''exec'', ''test'', ''compile'', ''dotAll'', ''global'', ''hasIndices'',
      ''ignoreCase'', ''multiline'', ''sticky'', ''unicode'', ''unicodeSets'']"

fun inherited_prop :: "json \<Rightarrow> string \<Rightarrow> inherited" where
  "inherited_prop (JRegExp re) key =
     (if key \<in> set [''__proto__'', ''source'', ''flags''] then Unknown
      else if key \<in> set object_prototype_keys \<or> key \<in> set regexp_prototype_keys then NonObject
      else Absent)"
| "inherited_prop target key =
     (if key = ''__proto__'' then Unknown
      else if key \<in> set object_prototype_keys then NonObject
      else Absent)"

definition has_own :: "json \<Rightarrow> string \<Rightarrow> bool" where
  "has_own target key = (case target of JObj ps \<Rightarrow> key \<in> fst ` set ps | _ \<Rightarrow> False)"

text \<open>\<open>output[key] = v\<close> on a plain object: the key \<open>__proto__\<close> meets the setter of
  \<open>Object.prototype\<close> unless the object has the property itself.\<close>

definition set_prop :: "(string \<times> json) list \<Rightarrow> string \<Rightarrow> json \<Rightarrow> error + (string \<times> json) list" where
  "set_prop out key v =
     (if key = ''__proto__'' \<and> key \<notin> fst ` set out then Inl Unmodelled
      else Inr (assign out key v))"

text \<open>
  \<open>deepMerge(target, source)\<close>. \<open>mergeProps\<close> is \<open>Object.keys(source).forEach\<close> over
  the remaining keys with the output so far, and \<open>merge_value\<close> is the value the body of
  the loop stores under \<open>key\<close>.
\<close>

fun deepMerge :: "json \<Rightarrow> json \<Rightarrow> error + json"
  and merge_value :: "json \<Rightarrow> string \<Rightarrow> json \<Rightarrow> error + json"
  and mergeProps :: "json \<Rightarrow> (string \<times> json) list \<Rightarrow> (string \<times> json) list \<Rightarrow> error + (string \<times> json) list" where
  "deepMerge target (JObj sps) =
     (if isObject target
      then (case mergeProps target sps (spread_into [] target) of
              Inl e \<Rightarrow> Inl e
            | Inr out \<Rightarrow> Inr (JObj out))
      else Inr (JObj (spread_into [] target)))"
| "deepMerge target source = Inr (JObj (spread_into [] target))"
| "merge_value target key sv =
     (if isObject sv
      then (if has_own target key then deepMerge (opt_prop target key) sv
            else (case inherited_prop target key of
                    Absent \<Rightarrow> Inr sv
                  | NonObject \<Rightarrow> Inr (JObj [])
                  | Unknown \<Rightarrow> Inl Unmodelled))
      else (case (sv, opt_prop target key) of
              (JArr ys, JArr xs) \<Rightarrow>
                (case mergeArrays xs ys of Inl e \<Rightarrow> Inl e | Inr zs \<Rightarrow> Inr (JArr zs))
            | _ \<Rightarrow> Inr sv))"
| "mergeProps target [] out = Inr out"
| "mergeProps target ((key, sv) # rest) out =
     (case merge_value target key sv of
        Inl e \<Rightarrow> Inl e
      | Inr v \<Rightarrow>
          (case set_prop out key v of
             Inl e \<Rightarrow> Inl e
           | Inr out' \<Rightarrow> mergeProps target rest out'))"

section \<open>The base configuration (common.config.js)\<close>

text \<open>
  What the process reads from its surroundings: the environment variables, the working
  directory, the clock, \<open>path.join(process.cwd(), ".husky-cache")\<close>, and the project
  overlays. \<open>project_module t\<close> is what loading \<open>t.config.js\<close> yields (the module's
  value, or the result of calling it when it is a function); \<open>None\<close> when the file does
  not exist or loading it throws.
\<close>

record proc_env =
  env_CI :: "string option"
  env_GITHUB_ACTIONS :: "string option"
  env_NODE_ENV :: "string option"
  env_HUSKY_VERBOSE :: "string option"
  env_HUSKY_AUTO_FIX :: "string option"
  env_HUSKY_PARALLEL :: "string option"
  env_HUSKY_CACHE :: "string option"
  cwd :: string
  now_iso :: string
  cache_directory :: string
  project_module :: "string \<Rightarrow> json option"

definition conventional_rx :: rx where
  "conventional_rx =
     seqs [Bol,
           Grp 0 (alts (map lit [''feat'', ''fix'', ''docs'', ''style'', ''refactor'', ''test'',
                                 ''chore'', ''perf'', ''build'', ''ci'', ''revert''])),
           Opt (Grp 1 (seqs [Chr CHR ''('', Plus Dot, Chr CHR '')''])),
           Chr CHR '':'', Chr CHR '' '', Plus Dot]"

definition skip_rx :: rx where
  "skip_rx = alts (map (\<lambda>w. Seq Bol (lit w)) [''wip:'', ''fixup!'', ''squash!'', ''draft:''])"

definition check_with :: "string \<Rightarrow> bool \<Rightarrow> bool \<Rightarrow> (string \<times> json) list \<Rightarrow> json" where
  "check_with n e c opts =
     JObj [(''name'', JStr n), (''enabled'', JBool e), (''critical'', JBool c),
           (''options'', JObj opts)]"

definition preCommitDefaults :: json where
  "preCommitDefaults =
     JObj [(''enabled'', JBool True),
           (''checks'', JArr
              [check_with ''lint-staged'' True True
                 [(''stagedOnly'', JBool True), (''allowEmpty'', JBool False), (''autoFix'', JBool True)],
               check_with ''typescript'' True True
                 [(''noEmit'', JBool True), (''skipLibCheck'', JBool True), (''changedOnly'', JBool True)]]),
           (''timeout'', JNum 10000),
           (''skipPattern'', JRegExp (RegExp skip_rx ''i'')),
           (''runInCI'', JBool True),
           (''parallel'', JBool False),
           (''failFast'', JBool True)]"

definition prePushDefaults :: json where
  "prePushDefaults =
     JObj [(''enabled'', JBool True),
           (''checks'', JArr
              [check_with ''build'' True True
                 [(''production'', JBool False), (''sourceMap'', JBool True)],
               check_with ''test'' False False
                 [(''watch'', JBool False), (''coverage'', JBool False)]]),
           (''timeout'', JNum 120000),
           (''skipBranches'', JArr [JStr ''main'', JStr ''master'', JStr ''develop'', JStr ''release/*''])]"

definition commitMsgDefaults :: json where
  "commitMsgDefaults =
     JObj [(''enabled'', JBool True),
           (''pattern'', JRegExp (RegExp conventional_rx [])),
           (''minLength'', JNum 10),
           (''maxLength'', JNum 100),
           (''allowMerge'', JBool True),
           (''allowRevert'', JBool True),
           (''allowSquash'', JBool False)]"

definition descriptor :: "string \<Rightarrow> bool \<Rightarrow> bool \<Rightarrow> json" where
  "descriptor n e c = JObj [(''name'', JStr n), (''enabled'', JBool e), (''critical'', JBool c)]"

definition environments :: json where
  "environments =
     JObj [(''development'',
              JObj [(''general'', JObj [(''verbose'', JBool True), (''autoFix'', JBool True)]),
                    (''preCommit'', JObj [(''timeout'', JNum 15000), (''failFast'', JBool False)]),
                    (''prePush'', JObj [(''enabled'', JBool False)])]),
           (''production'',
              JObj [(''general'', JObj [(''skipCI'', JBool False), (''verbose'', JBool False)]),
                    (''preCommit'',
                       JObj [(''checks'', JArr [descriptor ''lint-staged'' True True,
                                                descriptor ''typescript'' True True])]),
                    (''prePush'',
                       JObj [(''enabled'', JBool True),
                             (''checks'', JArr [descriptor ''build'' True True,
                                                descriptor ''test'' True False])])]),
           (''ci'',
              JObj [(''general'', JObj [(''skipCI'', JBool False), (''verbose'', JBool True),
                                        (''parallelChecks'', JBool True)]),
                    (''preCommit'', JObj [(''runInCI'', JBool True), (''parallel'', JBool True),
                                          (''timeout'', JNum 30000)]),
                    (''prePush'', JObj [(''enabled'', JBool True), (''timeout'', JNum 180000)])])]"

text \<open>
  The exported object. The module also hangs \<open>default\<close> (the object itself) and \<open>utils\<close>
  (functions) on it; \<open>getConfig\<close> reads neither and they are left out.
\<close>

definition commonConfig :: "proc_env \<Rightarrow> json" where
  "commonConfig penv =
     JObj [(''general'',
              JObj [(''skipCI'', JBool (env_CI penv = Some ''true'')),
                    (''verbose'', JBool (env_HUSKY_VERBOSE penv = Some ''true'')),
                    (''autoFix'', JBool (env_HUSKY_AUTO_FIX penv \<noteq> Some ''false'')),
                    (''parallelChecks'', JBool (env_HUSKY_PARALLEL penv \<noteq> Some ''false'')),
                    (''cacheEnabled'', JBool (env_HUSKY_CACHE penv \<noteq> Some ''false''))]),
           (''preCommitDefaults'', preCommitDefaults),
           (''prePushDefaults'', prePushDefaults),
           (''commitMsgDefaults'', commitMsgDefaults),
           (''preCommit'', JObj []),
           (''prePush'', JObj []),
           (''commitMsg'', JObj []),
           (''environments'', environments)]"

section \<open>The resolver (getConfig of hooks-config.js)\<close>

definition loadProjectConfig :: "proc_env \<Rightarrow> string \<Rightarrow> json" where
  "loadProjectConfig penv projectType =
     (if projectType = ''common'' then JObj []
      else case project_module penv projectType of None \<Rightarrow> JObj [] | Some c \<Rightarrow> c)"

definition getEnvironment :: "proc_env \<Rightarrow> string" where
  "getEnvironment penv =
     (if env_CI penv = Some ''true'' \<or> env_GITHUB_ACTIONS penv = Some ''true'' then ''ci''
      else if env_NODE_ENV penv = Some ''production'' then ''production''
      else if env_NODE_ENV penv = Some ''test'' then ''test''
      else ''development'')"

text \<open>\<open>...(x || [])\<close> inside an array literal: an array or a string is iterable.\<close>

fun spread_elems :: "json \<Rightarrow> error + json list" where
  "spread_elems (JArr xs) = Inr xs"
| "spread_elems (JStr s) = (if s = [] then Inr [] else Inr (map (\<lambda>c. JStr [c]) s))"
| "spread_elems v = (if truthy v then Inl TypeError else Inr [])"

text \<open>
  \<open>.filter((check, index, self) => index === self.findIndex((c) => c.name === check.name))\<close>.
  \<open>earlier_same names n\<close> is whether \<open>findIndex\<close> stops before the element itself.
\<close>

fun earlier_same :: "json list \<Rightarrow> json \<Rightarrow> error + bool" where
  "earlier_same [] n = Inr False"
| "earlier_same (m # ms) n =
     (case same_value m n of
        None \<Rightarrow> Inl Unmodelled
      | Some True \<Rightarrow> Inr True
      | Some False \<Rightarrow> earlier_same ms n)"

fun keep_first :: "json list \<Rightarrow> json list \<Rightarrow> error + json list" where
  "keep_first names [] = Inr []"
| "keep_first names (check # rest) =
     (case get_prop check ''name'' of
        Inl e \<Rightarrow> Inl e
      | Inr n \<Rightarrow>
          (case earlier_same names n of
             Inl e \<Rightarrow> Inl e
           | Inr dup \<Rightarrow>
               (case keep_first (names @ [n]) rest of
                  Inl e \<Rightarrow> Inl e
                | Inr kept \<Rightarrow> Inr (if dup then kept else check # kept))))"

definition section_checks :: "json \<Rightarrow> json \<Rightarrow> error + json list" where
  "section_checks defaults override =
     (case spread_elems (opt_prop defaults ''checks'') of
        Inl e \<Rightarrow> Inl e
      | Inr ds \<Rightarrow>
          (case spread_elems (opt_prop override ''checks'') of
             Inl e \<Rightarrow> Inl e
           | Inr os \<Rightarrow> keep_first [] (ds @ os)))"

definition hook_section :: "json \<Rightarrow> json \<Rightarrow> error + json" where
  "hook_section defaults override =
     (case section_checks defaults override of
        Inl e \<Rightarrow> Inl e
      | Inr checks \<Rightarrow>
          Inr (JObj (assign (spread_into (spread_into [] defaults) override) ''checks'' (JArr checks))))"


definition env_value :: "string option \<Rightarrow> json" where
  "env_value v = (case v of None \<Rightarrow> JUndef | Some s \<Rightarrow> JStr s)"

definition delete_prop :: "string \<Rightarrow> (string \<times> json) list \<Rightarrow> (string \<times> json) list" where
  "delete_prop k ps = filter (\<lambda>p. fst p \<noteq> k) ps"

definition final_config :: "proc_env \<Rightarrow> string \<Rightarrow> json \<Rightarrow> json \<Rightarrow> error + json" where
  "final_config penv projectType projectConfig mergedConfig =
     (case hook_section (opt_prop mergedConfig ''preCommitDefaults'') (opt_prop mergedConfig ''preCommit'') of
        Inl e \<Rightarrow> Inl e
      | Inr preCommit \<Rightarrow>
     (case hook_section (opt_prop mergedConfig ''prePushDefaults'') (opt_prop mergedConfig ''prePush'') of
        Inl e \<Rightarrow> Inl e
      | Inr prePush \<Rightarrow>
          Inr (JObj
            [(''meta'',
                JObj [(''projectType'', JStr projectType),
                      (''environment'', JStr (getEnvironment penv)),
                      (''configVersion'', JStr ''1.0.0''),
                      (''generatedAt'', JStr (now_iso penv))]),
             (''general'',
                JObj (assign (assign (assign (spread_into [] (opt_prop mergedConfig ''general''))
                        ''projectRoot'' (JStr (cwd penv)))
                        ''projectType'' (JStr projectType))
                        ''environment'' (JStr (getEnvironment penv)))),
             (''preCommit'', preCommit),
             (''prePush'', prePush),
             (''commitMsg'',
                JObj (spread_into (spread_into [] (opt_prop mergedConfig ''commitMsgDefaults''))
                        (opt_prop mergedConfig ''commitMsg''))),
             (''advanced'',
                JObj [(''project'', projectConfig),
                      (''env'',
                         JObj [(''nodeEnv'', env_value (env_NODE_ENV penv)),
                               (''isCI'', JBool (env_CI penv = Some ''true'')),
                               (''isVerbose'', JBool (env_HUSKY_VERBOSE penv = Some ''true''))]),
                      (''cache'',
                         JObj [(''enabled'',
                                  JBool (opt_prop (opt_prop mergedConfig ''general'') ''cacheEnabled''
                                         \<noteq> JBool False)),
                               (''directory'', JStr (cache_directory penv)),
                               (''ttl'', JNum 3600000)])])])))"

definition getConfig :: "proc_env \<Rightarrow> string \<Rightarrow> json \<Rightarrow> error + json" where
  "getConfig penv projectType userConfig =
     (let environment = getEnvironment penv;
          projectConfig = loadProjectConfig penv projectType;
          found = opt_prop (opt_prop (commonConfig penv) ''environments'') environment;
          envConfig = (if truthy found then found else JObj [])
      in case deepMerge (commonConfig penv) envConfig of
           Inl e \<Rightarrow> Inl e
         | Inr merged1 \<Rightarrow>
             (case deepMerge (JObj (delete_prop ''environments'' (own_props merged1))) projectConfig of
                Inl e \<Rightarrow> Inl e
              | Inr merged2 \<Rightarrow>
                  (case deepMerge merged2 userConfig of
                     Inl e \<Rightarrow> Inl e
                   | Inr mergedConfig \<Rightarrow> final_config penv projectType projectConfig mergedConfig)))"

definition example_penv :: "string option \<Rightarrow> proc_env" where
  "example_penv node_env =
     \<lparr>env_CI = None, env_GITHUB_ACTIONS = None, env_NODE_ENV = node_env,
      env_HUSKY_VERBOSE = None, env_HUSKY_AUTO_FIX = None, env_HUSKY_PARALLEL = None,
      env_HUSKY_CACHE = None, cwd = ''/repo'', now_iso = ''2024-01-01T00:00:00.000Z'',
      cache_directory = ''/repo/.husky-cache'', project_module = (\<lambda>t. None)\<rparr>"

subsection \<open>Well-formed overlays\<close>










section \<open>The merge engine on a store\<close>

text \<open>
  Whether \<open>deepMerge\<close> and \<open>mergeArrays\<close> change their arguments cannot be said of trees.
  Here objects and arrays live in a store, a list of cells addressed by position; a
  value is a primitive or the address of a cell, and creating an object appends a cell.
  Every result comes with the store it leaves, also when the call throws.
\<close>

datatype hval = HUndef | HNull | HBool bool | HNum int | HStr string | HRef nat

datatype cell = CObj "(string \<times> hval) list" | CArr "hval list" | CRegExp regexp

type_synonym store = "cell list"

definition alloc :: "store \<Rightarrow> cell \<Rightarrow> nat \<times> store" where
  "alloc h c = (length h, h @ [c])"

fun cell_at :: "store \<Rightarrow> hval \<Rightarrow> cell option" where
  "cell_at h (HRef a) = (if a < length h then Some (h ! a) else None)"
| "cell_at h _ = None"

fun h_truthy :: "hval \<Rightarrow> bool" where
  "h_truthy HUndef = False"
| "h_truthy HNull = False"
| "h_truthy (HBool b) = b"
| "h_truthy (HNum n) = (n \<noteq> 0)"
| "h_truthy (HStr s) = (s \<noteq> [])"
| "h_truthy (HRef a) = True"

definition h_isObject :: "store \<Rightarrow> hval \<Rightarrow> bool" where
  "h_isObject h v =
     (case cell_at h v of Some (CObj ps) \<Rightarrow> True | Some (CRegExp re) \<Rightarrow> True | _ \<Rightarrow> False)"

definition h_isArray :: "store \<Rightarrow> hval \<Rightarrow> bool" where
  "h_isArray h v = (case cell_at h v of Some (CArr xs) \<Rightarrow> True | _ \<Rightarrow> False)"

definition h_own_props :: "store \<Rightarrow> hval \<Rightarrow> (string \<times> hval) list" where
  "h_own_props h v =
     (case v of
        HStr s \<Rightarrow> zip (map show_nat [0 ..< length s]) (map (\<lambda>c. HStr [c]) s)
      | _ \<Rightarrow>
          (case cell_at h v of
             Some (CObj ps) \<Rightarrow> ps
           | Some (CArr xs) \<Rightarrow> zip (map show_nat [0 ..< length xs]) xs
           | _ \<Rightarrow> []))"

definition h_prop :: "store \<Rightarrow> hval \<Rightarrow> string \<Rightarrow> hval" where
  "h_prop h v key =
     (case cell_at h v of
        Some (CObj ps) \<Rightarrow> (case map_of ps key of None \<Rightarrow> HUndef | Some x \<Rightarrow> x)
      | _ \<Rightarrow> HUndef)"

definition h_has_own :: "store \<Rightarrow> hval \<Rightarrow> string \<Rightarrow> bool" where
  "h_has_own h v key = (case cell_at h v of Some (CObj ps) \<Rightarrow> key \<in> fst ` set ps | _ \<Rightarrow> False)"

definition h_inherited :: "store \<Rightarrow> hval \<Rightarrow> string \<Rightarrow> inherited" where
  "h_inherited h v key =
     (case cell_at h v of
        Some (CRegExp re) \<Rightarrow> inherited_prop (JRegExp re) key
      | _ \<Rightarrow> inherited_prop (JObj []) key)"

text \<open>The first error of a list of results, or all the values.\<close>

fun collect :: "(error + 'a) list \<Rightarrow> error + 'a list" where
  "collect [] = Inr []"
| "collect (Inl e # rs) = Inl e"
| "collect (Inr x # rs) = (case collect rs of Inl e \<Rightarrow> Inl e | Inr xs \<Rightarrow> Inr (x # xs))"

primrec stringify_h :: "nat \<Rightarrow> store \<Rightarrow> nat list \<Rightarrow> hval \<Rightarrow> error + string option" where
  "stringify_h 0 h stack v =
     (case v of
        HUndef \<Rightarrow> Inr None
      | HNull \<Rightarrow> Inr (Some ''null'')
      | HBool b \<Rightarrow> Inr (Some (if b then ''true'' else ''false''))
      | HNum i \<Rightarrow> map_sum id Some (number_text i)
      | HStr s \<Rightarrow> Inr (Some (quote s))
      | HRef a \<Rightarrow> Inl StackOverflow)"
| "stringify_h (Suc n) h stack v =
     (case v of
        HUndef \<Rightarrow> Inr None
      | HNull \<Rightarrow> Inr (Some ''null'')
      | HBool b \<Rightarrow> Inr (Some (if b then ''true'' else ''false''))
      | HNum i \<Rightarrow> map_sum id Some (number_text i)
      | HStr s \<Rightarrow> Inr (Some (quote s))
      | HRef a \<Rightarrow>
          if a \<in> set stack then Inl TypeError
          else (case cell_at h (HRef a) of
                  None \<Rightarrow> Inl Unmodelled
                | Some (CRegExp re) \<Rightarrow> Inr (Some ''{}'')
                | Some (CArr xs) \<Rightarrow>
                    (case collect (map (stringify_h n h (a # stack)) xs) of
                       Inl e \<Rightarrow> Inl e
                     | Inr rs \<Rightarrow>
                         Inr (Some (''['' @ join '','' (map (\<lambda>r. case r of None \<Rightarrow> ''null'' | Some t \<Rightarrow> t) rs)
                                    @ '']'')))
                | Some (CObj ps) \<Rightarrow>
                    (case collect (map (\<lambda>(k, x). map_sum id (Pair k) (stringify_h n h (a # stack) x)) ps) of
                       Inl e \<Rightarrow> Inl e
                     | Inr rs \<Rightarrow>
                         Inr (Some (''{'' @ join '','' (concat (map (\<lambda>(k, r). case r of None \<Rightarrow> []
                                                      | Some t \<Rightarrow> [quote k @ '':'' @ t]) rs))
                                    @ ''}'')))))"

text \<open>
  \<open>mergeArrays(arr1, arr2)\<close> on a store. The keys of the \<open>Map\<close> are values of the store, so
  two names are the same key exactly when they are the same primitive or the same object.
\<close>

fun map_put :: "('k \<times> 'v) list \<Rightarrow> 'k \<Rightarrow> 'v \<Rightarrow> ('k \<times> 'v) list" where
  "map_put [] k v = [(k, v)]"
| "map_put ((k', v') # m) k v = (if k' = k then (k', v) # m else (k', v') # map_put m k v)"

definition h_item_key :: "store \<Rightarrow> hval \<Rightarrow> error + hval" where
  "h_item_key h item =
     (if cell_at h item \<noteq> None \<and> h_truthy (h_prop h item ''name'') then Inr (h_prop h item ''name'')
      else case stringify_h (Suc (length h)) h [] item of
             Inl e \<Rightarrow> Inl e
           | Inr None \<Rightarrow> Inr HUndef
           | Inr (Some t) \<Rightarrow> Inr (HStr t))"

fun h_fill_map :: "store \<Rightarrow> hval list \<Rightarrow> (hval \<times> hval) list \<Rightarrow> error + (hval \<times> hval) list" where
  "h_fill_map h [] m = Inr m"
| "h_fill_map h (item # items) m =
     (case h_item_key h item of
        Inl e \<Rightarrow> Inl e
      | Inr k \<Rightarrow> h_fill_map h items (map_put m k item))"

text \<open>\<open>[...v]\<close>: the elements of an array, the characters of a string.\<close>

definition h_elems :: "store \<Rightarrow> hval \<Rightarrow> error + hval list" where
  "h_elems h v =
     (case v of
        HStr s \<Rightarrow> Inr (map (\<lambda>c. HStr [c]) s)
      | _ \<Rightarrow> (case cell_at h v of Some (CArr xs) \<Rightarrow> Inr xs | _ \<Rightarrow> Inl TypeError))"

definition mergeArrays_h :: "store \<Rightarrow> hval \<Rightarrow> hval \<Rightarrow> (error + hval) \<times> store" where
  "mergeArrays_h h arr1 arr2 =
     (case h_elems h arr1 of
        Inl e \<Rightarrow> (Inl e, h)
      | Inr xs \<Rightarrow>
          (case h_elems h arr2 of
             Inl e \<Rightarrow> (Inl e, h)
           | Inr ys \<Rightarrow>
               (case h_fill_map h (xs @ ys) [] of
                  Inl e \<Rightarrow> (Inl e, h)
                | Inr unique \<Rightarrow>
                    (let (a, h') = alloc h (CArr (map snd unique)) in (Inr (HRef a), h')))))"

text \<open>
  \<open>output[key] = v\<close> for the object at address \<open>out\<close>, and \<open>deepMerge\<close> on a store. The
  recursive call is the parameter \<open>rec\<close>; the fuel of \<open>deepMerge_h\<close> bounds the depth of
  the calls, as the engine's stack does.
\<close>

definition h_set_prop :: "store \<Rightarrow> nat \<Rightarrow> string \<Rightarrow> hval \<Rightarrow> error + store" where
  "h_set_prop h out key v =
     (case cell_at h (HRef out) of
        Some (CObj ps) \<Rightarrow>
          if key = ''__proto__'' \<and> key \<notin> fst ` set ps then Inl Unmodelled
          else Inr (h[out := CObj (assign ps key v)])
      | _ \<Rightarrow> Inl Unmodelled)"

definition merge_value_h ::
  "(store \<Rightarrow> hval \<Rightarrow> hval \<Rightarrow> (error + hval) \<times> store) \<Rightarrow> store \<Rightarrow> hval \<Rightarrow> string \<Rightarrow> hval
     \<Rightarrow> (error + hval) \<times> store" where
  "merge_value_h rec h target key sv =
     (if h_isObject h sv
      then (if h_has_own h target key then rec h (h_prop h target key) sv
            else (case h_inherited h target key of
                    Absent \<Rightarrow> (Inr sv, h)
                  | NonObject \<Rightarrow> (let (a, h') = alloc h (CObj []) in (Inr (HRef a), h'))
                  | Unknown \<Rightarrow> (Inl Unmodelled, h)))
      else if h_isArray h sv \<and> h_isArray h (h_prop h target key)
        then mergeArrays_h h (h_prop h target key) sv
      else (Inr sv, h))"

fun mergeProps_h ::
  "(store \<Rightarrow> hval \<Rightarrow> hval \<Rightarrow> (error + hval) \<times> store) \<Rightarrow> store \<Rightarrow> hval \<Rightarrow> hval \<Rightarrow> string list
     \<Rightarrow> nat \<Rightarrow> (error + unit) \<times> store" where
  "mergeProps_h rec h target source [] out = (Inr (), h)"
| "mergeProps_h rec h target source (key # keys) out =
     (case merge_value_h rec h target key (h_prop h source key) of
        (Inl e, h1) \<Rightarrow> (Inl e, h1)
      | (Inr v, h1) \<Rightarrow>
          (case h_set_prop h1 out key v of
             Inl e \<Rightarrow> (Inl e, h1)
           | Inr h2 \<Rightarrow> mergeProps_h rec h2 target source keys out))"

primrec deepMerge_h :: "nat \<Rightarrow> store \<Rightarrow> hval \<Rightarrow> hval \<Rightarrow> (error + hval) \<times> store" where
  "deepMerge_h 0 h target source = (Inl StackOverflow, h)"
| "deepMerge_h (Suc n) h target source =
     (let (out, h1) = alloc h (CObj (define_props [] (h_own_props h target)))
      in if h_isObject h1 target \<and> h_isObject h1 source
         then (case mergeProps_h (deepMerge_h n) h1 target source
                      (map fst (h_own_props h1 source)) out of
                 (Inl e, h2) \<Rightarrow> (Inl e, h2)
               | (Inr u, h2) \<Rightarrow> (Inr (HRef out), h2))
         else (Inr (HRef out), h1))"

text \<open>
  The tree a value of the store stands for, read to a given depth: \<open>None\<close> when the
  value reaches deeper, or reaches an address outside the store.
\<close>

fun all_some :: "'a option list \<Rightarrow> 'a list option" where
  "all_some [] = Some []"
| "all_some (None # rs) = None"
| "all_some (Some x # rs) = map_option ((#) x) (all_some rs)"

primrec read_back :: "nat \<Rightarrow> store \<Rightarrow> hval \<Rightarrow> json option" where
  "read_back 0 h v =
     (case v of
        HUndef \<Rightarrow> Some JUndef
      | HNull \<Rightarrow> Some JNull
      | HBool b \<Rightarrow> Some (JBool b)
      | HNum i \<Rightarrow> Some (JNum i)
      | HStr s \<Rightarrow> Some (JStr s)
      | HRef a \<Rightarrow> None)"
| "read_back (Suc n) h v =
     (case v of
        HUndef \<Rightarrow> Some JUndef
      | HNull \<Rightarrow> Some JNull
      | HBool b \<Rightarrow> Some (JBool b)
      | HNum i \<Rightarrow> Some (JNum i)
      | HStr s \<Rightarrow> Some (JStr s)
      | HRef a \<Rightarrow>
          (case cell_at h (HRef a) of
             None \<Rightarrow> None
           | Some (CRegExp re) \<Rightarrow> Some (JRegExp re)
           | Some (CArr xs) \<Rightarrow> map_option JArr (all_some (map (read_back n h) xs))
           | Some (CObj ps) \<Rightarrow>
               map_option JObj
                 (all_some (map (\<lambda>(k, x). map_option (Pair k) (read_back n h x)) ps))))"

definition unchanged :: "store \<Rightarrow> store \<Rightarrow> bool" where
  "unchanged h h' = (take (length h) h' = h)"

definition ex_store :: store where
  "ex_store = [CObj [(''a'', HNum 1), (''c'', HRef 1), (''l'', HRef 2)],
               CObj [(''x'', HNum 1)],
               CArr [HStr ''m'', HRef 3],
               CObj [(''name'', HStr ''q''), (''e'', HBool True)],
               CObj [(''b'', HNum 2), (''c'', HRef 5), (''l'', HRef 6)],
               CObj [(''y'', HNum 2)],
               CArr [HStr ''m'', HStr ''z'', HRef 7],
               CObj [(''name'', HStr ''q'')]]"

text \<open>What the proof asks of the recursive call: it leaves the cells it was given as they were.\<close>

definition frame_ok :: "(store \<Rightarrow> hval \<Rightarrow> hval \<Rightarrow> (error + hval) \<times> store) \<Rightarrow> bool" where
  "frame_ok rec = (\<forall>h t s r h'. rec h t s = (r, h') \<longrightarrow> unchanged h h')"

text \<open>The recursive call does not exhaust the stack on a source that is a tree of depth \<open>m\<close>.\<close>

definition no_overflow :: "nat \<Rightarrow> (store \<Rightarrow> hval \<Rightarrow> hval \<Rightarrow> (error + hval) \<times> store) \<Rightarrow> bool" where
  "no_overflow m rec =
     (\<forall>h t s. read_back m h s \<noteq> None \<longrightarrow> fst (rec h t s) \<noteq> Inl StackOverflow)"

section \<open>Project type detection (scripts/utils/config-loader.js)\<close>

text \<open>
  The state of the project root as \<open>detectProjectType\<close> meets it: the result of
  \<open>fs.readdirSync(projectRoot)\<close>, whether \<open>package.json\<close> exists, and the result of
  reading and parsing it (an error when the file cannot be read or is not JSON).
\<close>

record fs_state =
  root_listing :: "error + string list"
  manifest_exists :: bool
  manifest :: "error + json"

definition next_config_rx :: rx where
  "next_config_rx =
     seqs [Bol, lit ''next.config.'', Grp 0 (alts (map lit [''js'', ''ts'', ''mjs'', ''cjs''])), Eol]"

definition vite_config_rx :: rx where
  "vite_config_rx =
     seqs [Bol, lit ''vite.config.'', Grp 0 (alts (map lit [''js'', ''ts'', ''mjs'', ''cjs''])), Eol]"

text \<open>The body of the \<open>try\<close> block: \<open>None\<close> when it falls through to the last \<open>return\<close>.\<close>

definition manifest_type :: "fs_state \<Rightarrow> error + string option" where
  "manifest_type fs =
     (if manifest_exists fs
      then (case manifest fs of
              Inl e \<Rightarrow> Inl e
            | Inr pkg \<Rightarrow>
                (case get_prop pkg ''dependencies'' of
                   Inl e \<Rightarrow> Inl e
                 | Inr deps \<Rightarrow>
                     (let allDeps = spread_into (spread_into (spread_into [] deps)
                                       (opt_prop pkg ''devDependencies''))
                                       (opt_prop pkg ''peerDependencies'')
                      in if truthy (own allDeps ''next'') \<or> truthy (own allDeps ''nextjs'')
                           then Inr (Some ''nextjs'')
                         else if truthy (own allDeps ''vite'') then Inr (Some ''vite'')
                         else if truthy (own allDeps ''react'') \<and> \<not> truthy (own allDeps ''next'')
                           then Inr (Some ''react'')
                         else Inr None)))
      else Inr None)"

definition detectProjectType :: "fs_state \<Rightarrow> error + string" where
  "detectProjectType fs =
     (case root_listing fs of
        Inl e \<Rightarrow> Inl e
      | Inr files \<Rightarrow>
          if list_ex (rx_matches next_config_rx False) files then Inr ''nextjs''
          else if list_ex (rx_matches vite_config_rx False) files then Inr ''vite''
          else (case manifest_type fs of
                  Inl e \<Rightarrow> Inr ''common''
                | Inr (Some t) \<Rightarrow> Inr t
                | Inr None \<Rightarrow> Inr ''common''))"

section \<open>The commit message validator (commit-msg.js, src/unnamed/part_000)\<close>

text \<open>The built-in default of \<open>parsePattern\<close> and the pattern that splits \<open>/body/flags\<close>.\<close>

definition default_pattern :: regexp where
  "default_pattern = RegExp conventional_rx ''i''"

definition delimited_rx :: rx where
  "delimited_rx =
     seqs [Bol, Chr CHR ''/'', Grp 0 (LazyStar Dot), Chr CHR ''/'',
           Grp 1 (Star (Cls ''gimuy'')), Eol]"

definition nth_opt :: "string option list \<Rightarrow> nat \<Rightarrow> string option" where
  "nth_opt m i = (if i < length m then m ! i else None)"

text \<open>
  \<open>new RegExp(source, flags)\<close> is the engine's compiler, a parameter here: \<open>None\<close> when it
  throws a syntax error.
\<close>

definition parsePattern :: "(string \<Rightarrow> string \<Rightarrow> regexp option) \<Rightarrow> json \<Rightarrow> error + regexp" where
  "parsePattern compile pattern =
     (case pattern of
        JRegExp re \<Rightarrow> Inr re
      | JStr s \<Rightarrow>
          (case regexp_exec (RegExp delimited_rx []) s of
             Inl e \<Rightarrow> Inl e
           | Inr (Some m) \<Rightarrow>
               (case compile (case nth_opt m 1 of None \<Rightarrow> [] | Some body \<Rightarrow> body)
                       (case nth_opt m 2 of None \<Rightarrow> ''i'' | Some f \<Rightarrow> if f = [] then ''i'' else f) of
                  None \<Rightarrow> Inl SyntaxError
                | Some re \<Rightarrow> Inr re)
           | Inr None \<Rightarrow>
               (case compile s ''i'' of None \<Rightarrow> Inl SyntaxError | Some re \<Rightarrow> Inr re))
      | _ \<Rightarrow> Inr default_pattern)"

text \<open>The parsed message; \<open>p_type = None\<close> is \<open>undefined\<close>, \<open>p_scope = None\<close> is \<open>null\<close>.\<close>

record parsed =
  p_type :: "string option"
  p_scope :: "string option"
  p_description :: string
  p_raw :: string

definition parseCommitMessage :: "string \<Rightarrow> regexp \<Rightarrow> error + parsed option" where
  "parseCommitMessage commitMessage pattern =
     (case regexp_exec pattern commitMessage of
        Inl e \<Rightarrow> Inl e
      | Inr None \<Rightarrow> Inr None
      | Inr (Some m) \<Rightarrow>
          (let type = nth_opt m 1;
               scopePart = nth_opt m 2;
               scope = (case scopePart of
                          None \<Rightarrow> None
                        | Some sp \<Rightarrow>
                            if sp = [] then None
                            else Some (filter (\<lambda>c. c \<noteq> CHR ''('' \<and> c \<noteq> CHR '')'') sp));
               description =
                 trim (remove_first (case nth_opt m 0 of None \<Rightarrow> [] | Some t \<Rightarrow> t) commitMessage)
           in Inr (Some \<lparr>p_type = type, p_scope = scope, p_description = description,
                          p_raw = commitMessage\<rparr>)))"

section \<open>The hook runners (hooks/pre-commit.js and hooks/pre-push.js)\<close>

text \<open>
  A check is an external unit, loaded by name and awaited. What it does is given by a
  behaviour: from the names invoked so far and the name of the check to whether the
  check returns, throws an error with a message, or never settles. The name is passed as
  the value found in the descriptor; building the module path from it is the
  collaborator's part. Log lines are not modelled; the run records the results the source
  pushes and the names of the checks it invoked, in order.
\<close>

datatype check_outcome = Passes | Throws string | Hangs

record check_result =
  res_name :: json
  res_passed :: bool
  res_critical :: json

datatype 'a promise = Resolved 'a | Rejected error | Pending

record run =
  outcome :: "bool promise"
  results :: "check_result list"
  invoked :: "json list"

type_synonym behaviour = "json list \<Rightarrow> json \<Rightarrow> check_outcome"

text \<open>\<open>checks.filter((check) => check.enabled)\<close>\<close>

fun filter_enabled :: "json list \<Rightarrow> error + json list" where
  "filter_enabled [] = Inr []"
| "filter_enabled (c # cs) =
     (case get_prop c ''enabled'' of
        Inl e \<Rightarrow> Inl e
      | Inr en \<Rightarrow>
          (case filter_enabled cs of
             Inl e \<Rightarrow> Inl e
           | Inr r \<Rightarrow> Inr (if truthy en then c # r else r)))"

text \<open>
  The loop \<open>for (const check of checks)\<close> and the lines after it, the same text in both
  hooks. A passed check is recorded without a \<open>critical\<close> field; a failed one with the
  descriptor's.
\<close>

fun run_checks :: "behaviour \<Rightarrow> json list \<Rightarrow> check_result list \<Rightarrow> json list \<Rightarrow> run" where
  "run_checks beh [] res seen =
     \<lparr>outcome = Resolved (list_all res_passed (filter (\<lambda>r. truthy (res_critical r)) res)),
      results = res, invoked = seen\<rparr>"
| "run_checks beh (check # rest) res seen =
     (case get_prop check ''name'' of
        Inl e \<Rightarrow> \<lparr>outcome = Rejected e, results = res, invoked = seen\<rparr>
      | Inr name \<Rightarrow>
          (case beh seen name of
             Passes \<Rightarrow>
               run_checks beh rest
                 (res @ [\<lparr>res_name = name, res_passed = True, res_critical = JUndef\<rparr>])
                 (seen @ [name])
           | Throws msg \<Rightarrow>
               (let critical = opt_prop check ''critical'';
                    res' = res @ [\<lparr>res_name = name, res_passed = False, res_critical = critical\<rparr>]
                in if truthy critical
                   then \<lparr>outcome = Resolved False, results = res', invoked = seen @ [name]\<rparr>
                   else run_checks beh rest res' (seen @ [name]))
           | Hangs \<Rightarrow> \<lparr>outcome = Pending, results = res, invoked = seen @ [name]\<rparr>))"

record hook_env =
  git_branch :: "error + string"
  git_log :: "error + string"
  check_behaviour :: behaviour
  timer_first :: bool

definition finished :: "bool promise \<Rightarrow> run" where
  "finished p = \<lparr>outcome = p, results = [], invoked = []\<rparr>"

text \<open>\<open>config.X.checks.filter(...)\<close> followed by the loop.\<close>

definition run_section_checks :: "behaviour \<Rightarrow> json \<Rightarrow> run" where
  "run_section_checks beh hook =
     (case get_prop hook ''checks'' of
        Inl e \<Rightarrow> finished (Rejected e)
      | Inr (JArr cs) \<Rightarrow>
          (case filter_enabled cs of
             Inl e \<Rightarrow> finished (Rejected e)
           | Inr enabled \<Rightarrow> run_checks beh enabled [] [])
      | Inr _ \<Rightarrow> finished (Rejected TypeError))"

text \<open>\<open>skipPattern.test(commitMsg)\<close>: a value that is no regular expression has no \<open>test\<close>.\<close>

fun pattern_test :: "json \<Rightarrow> string \<Rightarrow> error + bool" where
  "pattern_test (JRegExp re) s = regexp_test re s"
| "pattern_test _ s = Inl TypeError"

definition runPreCommitChecks :: "hook_env \<Rightarrow> json \<Rightarrow> run" where
  "runPreCommitChecks env config =
     (case get_prop config ''preCommit'' of
        Inl e \<Rightarrow> finished (Rejected e)
      | Inr hook \<Rightarrow>
          if \<not> truthy (opt_prop hook ''enabled'') then finished (Resolved True)
          else
            (case git_branch env of
               Inl e \<Rightarrow> finished (Rejected e)
             | Inr currentBranch \<Rightarrow>
                 (case git_log env of
                    Inl e \<Rightarrow> finished (Rejected e)
                  | Inr log \<Rightarrow>
                      (let commitMsg = trim log; skipPattern = opt_prop hook ''skipPattern''
                       in case (if truthy skipPattern then pattern_test skipPattern commitMsg
                                else Inr False) of
                            Inl e \<Rightarrow> finished (Rejected e)
                          | Inr True \<Rightarrow> finished (Resolved True)
                          | Inr False \<Rightarrow> run_section_checks (check_behaviour env) hook))))"

text \<open>
  \<open>config.prePush.skipBranches?.includes(currentBranch)\<close>: \<open>Array.prototype.includes\<close>
  on an array, \<open>String.prototype.includes\<close> on a string, nothing on \<open>undefined\<close> and
  \<open>null\<close>, and a type error on anything else.
\<close>

fun skip_includes :: "json \<Rightarrow> string \<Rightarrow> error + bool" where
  "skip_includes JUndef b = Inr False"
| "skip_includes JNull b = Inr False"
| "skip_includes (JArr xs) b = Inr (JStr b \<in> set xs)"
| "skip_includes (JStr s) b = Inr (is_substring b s)"
| "skip_includes _ b = Inl TypeError"

definition runPrePushChecks :: "hook_env \<Rightarrow> json \<Rightarrow> run" where
  "runPrePushChecks env config =
     (case get_prop config ''prePush'' of
        Inl e \<Rightarrow> finished (Rejected e)
      | Inr hook \<Rightarrow>
          if \<not> truthy (opt_prop hook ''enabled'') then finished (Resolved True)
          else
            (case git_branch env of
               Inl e \<Rightarrow> finished (Rejected e)
             | Inr out \<Rightarrow>
                 (let currentBranch = trim out
                  in case skip_includes (opt_prop hook ''skipBranches'') currentBranch of
                       Inl e \<Rightarrow> finished (Rejected e)
                     | Inr True \<Rightarrow> finished (Resolved True)
                     | Inr False \<Rightarrow> run_section_checks (check_behaviour env) hook)))"

text \<open>
  \<open>Promise.race([run, timeoutPromise])\<close>: a run that never settles loses to the timer;
  for one that settles the environment says which came first.
\<close>

datatype settled = Fulfilled bool | Failed error

fun race :: "bool promise \<Rightarrow> bool \<Rightarrow> settled" where
  "race Pending t = Failed Timeout"
| "race (Resolved b) t = (if t then Failed Timeout else Fulfilled b)"
| "race (Rejected e) t = (if t then Failed Timeout else Failed e)"

text \<open>
  \<open>runWithTimeout\<close> either ends the process inside its \<open>catch\<close> or returns; it has no
  \<open>return\<close> statement, so the value it returns is \<open>undefined\<close>. An exception before the
  \<open>try\<close> (reading \<open>config.X\<close> of a configuration that is \<open>undefined\<close> or \<open>null\<close>)
  rejects the promise, which nothing handles.
\<close>

datatype proc = Exit nat | Returns json | Unhandled error

definition runWithTimeout :: "(hook_env \<Rightarrow> json \<Rightarrow> run) \<Rightarrow> string \<Rightarrow> hook_env \<Rightarrow> json \<Rightarrow> proc" where
  "runWithTimeout runner section env config =
     (case get_prop config section of
        Inl e \<Rightarrow> Unhandled e
      | Inr hook \<Rightarrow>
          (case race (outcome (runner env config)) (timer_first env) of
             Failed e \<Rightarrow> Exit 1
           | Fulfilled b \<Rightarrow> Returns JUndef))"

text \<open>
  The last lines of each hook: \<open>runWithTimeout().then((success) => process.exit(success ? 0 : 1))\<close>.
  An unhandled rejection ends the process with status 1 (Node.js 15 and later).
\<close>

fun exit_status :: "proc \<Rightarrow> nat" where
  "exit_status (Exit n) = n"
| "exit_status (Returns success) = (if truthy success then 0 else 1)"
| "exit_status (Unhandled e) = 1"

definition pre_commit_main :: "hook_env \<Rightarrow> json \<Rightarrow> nat" where
  "pre_commit_main env config = exit_status (runWithTimeout runPreCommitChecks ''preCommit'' env config)"

definition pre_push_main :: "hook_env \<Rightarrow> json \<Rightarrow> nat" where
  "pre_push_main env config = exit_status (runWithTimeout runPrePushChecks ''prePush'' env config)"




subsection \<open>Example inputs\<close>

text \<open>A behaviour in which exactly one check
  throws, one in which none does, and an environment on branch \<open>release/1.2\<close>.\<close>

definition fails_only :: "string \<Rightarrow> behaviour" where
  "fails_only n = (\<lambda>seen name. if name = JStr n then Throws ''failed'' else Passes)"

definition all_pass :: behaviour where
  "all_pass = (\<lambda>seen name. Passes)"

definition example_env :: "string \<Rightarrow> hook_env" where
  "example_env branch =
     \<lparr>git_branch = Inr (branch @ [CHR 0x0A]), git_log = Inr ''feat(button): add variant'',
      check_behaviour = all_pass, timer_first = False\<rparr>"

definition push_config :: "json \<Rightarrow> json" where
  "push_config skipBranches =
     JObj [(''prePush'', JObj [(''enabled'', JBool True), (''skipBranches'', skipBranches),
                               (''checks'', JArr [descriptor ''build'' True True])])]"

definition disabled_config :: json where
  "disabled_config =
     JObj [(''preCommit'', JObj [(''enabled'', JBool False)]),
           (''prePush'', JObj [(''enabled'', JBool False)])]"


section \<open>Properties of the hook runners\<close>




















text \<open>Past the short circuits, each runner is the loop over the enabled checks.\<close>

lemma runPreCommitChecks_loop:
  "(\<exists>p. runPreCommitChecks env config = finished p) \<or>
   (\<exists>hook cs enabled. get_prop config ''preCommit'' = Inr hook \<and>
      get_prop hook ''checks'' = Inr (JArr cs) \<and> filter_enabled cs = Inr enabled \<and>
      runPreCommitChecks env config = run_checks (check_behaviour env) enabled [] [])"
  by (auto simp: runPreCommitChecks_def run_section_checks_def Let_def
           split: sum.splits bool.splits json.splits if_splits)

lemma runPrePushChecks_loop:
  "(\<exists>p. runPrePushChecks env config = finished p) \<or>
   (\<exists>hook cs enabled. get_prop config ''prePush'' = Inr hook \<and>
      get_prop hook ''checks'' = Inr (JArr cs) \<and> filter_enabled cs = Inr enabled \<and>
      runPrePushChecks env config = run_checks (check_behaviour env) enabled [] [])"
  by (auto simp: runPrePushChecks_def run_section_checks_def Let_def
           split: sum.splits bool.splits json.splits if_splits)

lemma hook_exit_status: "pre_commit_main env config = 1" "pre_push_main env config = 1"
  by (auto simp: pre_commit_main_def pre_push_main_def runWithTimeout_def
           split: sum.splits settled.splits)

text \<open>
  C1. The entry points should exit with status 0 when the run succeeds. Here the hook is
  disabled, so both runs resolve to \<open>true\<close> before any timer can fire; \<open>runWithTimeout\<close>
  drops that value, \<open>success\<close> is \<open>undefined\<close>, and the process exits with status 1.
\<close>

theorem disabled_hook_exits_1:
  "outcome (runPreCommitChecks (example_env ''main'') disabled_config) = Resolved True \<and>
   pre_commit_main (example_env ''main'') disabled_config = 1 \<and>
   outcome (runPrePushChecks (example_env ''main'') disabled_config) = Resolved True \<and>
   pre_push_main (example_env ''main'') disabled_config = 1"
  by (simp add: pre_commit_main_def pre_push_main_def runWithTimeout_def runPreCommitChecks_def
        runPrePushChecks_def disabled_config_def example_env_def finished_def own_def)

text \<open>
  C3. With skip list \<open>["release/*"]\<close> on branch \<open>release/1.2\<close> the pre-push hook should
  be skipped. The runner tests the branch with \<open>includes\<close>, which compares whole strings:
  the hook is not skipped and the \<open>build\<close> check is invoked.
\<close>

theorem wildcard_branch_not_skipped:
  "runPrePushChecks (example_env ''release/1.2'') (push_config (JArr [JStr ''release/*''])) =
     \<lparr>outcome = Resolved True,
      results = [\<lparr>res_name = JStr ''build'', res_passed = True, res_critical = JUndef\<rparr>],
      invoked = [JStr ''build'']\<rparr>"
  by (simp add: runPrePushChecks_def push_config_def example_env_def own_def trim_def
        whitespace_def run_section_checks_def descriptor_def all_pass_def)

lemma release_branch_not_skipped:
  "invoked (runPrePushChecks (example_env ''release'') (push_config (JArr [JStr ''release/*''])))
     = [JStr ''build'']"
  by (simp add: runPrePushChecks_def push_config_def example_env_def own_def trim_def
        whitespace_def run_section_checks_def descriptor_def all_pass_def)

lemma literal_branch_skipped:
  "runPrePushChecks (example_env ''release/1.2'') (push_config (JArr [JStr ''release/1.2''])) =
     finished (Resolved True)"
  by (simp add: runPrePushChecks_def push_config_def example_env_def own_def trim_def
        whitespace_def)



text \<open>The same for a first check that fails: the second one is never invoked.\<close>

lemma critical_failure_first:
  "run_checks (fails_only ''A'') [descriptor ''A'' True True, descriptor ''B'' True True] [] []
     = \<lparr>outcome = Resolved False,
        results = [\<lparr>res_name = JStr ''A'', res_passed = False, res_critical = JBool True\<rparr>],
        invoked = [JStr ''A'']\<rparr>"
  by (simp add: fails_only_def descriptor_def own_def)



section \<open>Properties of project type detection\<close>

lemma manifest_type_cases:
  "manifest_type fs = Inr (Some t) \<Longrightarrow> t \<in> {''nextjs'', ''vite'', ''react''}"
  by (auto simp: manifest_type_def Let_def split: if_splits sum.splits)

lemma manifest_type_failed:
  "\<not> manifest_exists fs \<or> isl (manifest fs) \<Longrightarrow> manifest_type fs \<noteq> Inr (Some t)"
  by (auto simp: manifest_type_def split: sum.splits)

text \<open>
  C7 as stated fails: the listing of the project root is read outside the \<open>try\<close> block,
  so a root that cannot be listed makes \<open>detectProjectType\<close> throw.
\<close>

theorem detect_throws_on_unreadable_root:
  "detectProjectType \<lparr>root_listing = Inl (SystemError ''EACCES''), manifest_exists = True,
                      manifest = Inr (JObj [])\<rparr> = Inl (SystemError ''EACCES'')"
  by (simp add: detectProjectType_def)

text \<open>
  C7, amended. Whenever the project root can be listed, detection returns one of the
  project types, whatever the state of the manifest; and with no marker file in the
  root, a manifest that is missing, unreadable or malformed gives \<open>common\<close>.
\<close>

theorem detect_returns_when_listable:
  assumes "root_listing fs = Inr files"
  shows "(\<exists>t. detectProjectType fs = Inr t \<and> t \<in> {''nextjs'', ''vite'', ''react'', ''common''}) \<and>
         (\<not> list_ex (rx_matches next_config_rx False) files \<and>
          \<not> list_ex (rx_matches vite_config_rx False) files \<and>
          (\<not> manifest_exists fs \<or> isl (manifest fs))
          \<longrightarrow> detectProjectType fs = Inr ''common'')"
proof (intro conjI impI)
  show "\<exists>t. detectProjectType fs = Inr t \<and> t \<in> {''nextjs'', ''vite'', ''react'', ''common''}"
  proof (cases "manifest_type fs")
    case (Inl e)
    then show ?thesis using assms by (simp add: detectProjectType_def)
  next
    case (Inr r)
    show ?thesis
    proof (cases r)
      case None
      then show ?thesis using assms Inr by (simp add: detectProjectType_def)
    next
      case (Some t)
      then have "t \<in> {''nextjs'', ''vite'', ''react''}" using Inr manifest_type_cases by blast
      then show ?thesis using assms Inr Some by (auto simp: detectProjectType_def)
    qed
  qed
next
  assume h: "\<not> list_ex (rx_matches next_config_rx False) files \<and>
          \<not> list_ex (rx_matches vite_config_rx False) files \<and>
          (\<not> manifest_exists fs \<or> isl (manifest fs))"
  then have "\<And>t. manifest_type fs \<noteq> Inr (Some t)" using manifest_type_failed by blast
  then show "detectProjectType fs = Inr ''common''"
    using assms h by (auto simp: detectProjectType_def split: sum.splits option.splits)
qed

theorem detect_returns_when_listable_witness:
  "detectProjectType \<lparr>root_listing = Inr [''README.md'', ''package.json''], manifest_exists = True,
                      manifest = Inl SyntaxError\<rparr> = Inr ''common''"
proof -
  have n: "\<not> list_ex (rx_matches next_config_rx False) [''README.md'', ''package.json'']"
    by code_simp
  have v: "\<not> list_ex (rx_matches vite_config_rx False) [''README.md'', ''package.json'']"
    by code_simp
  show ?thesis
    using detect_returns_when_listable[of
        "\<lparr>root_listing = Inr [''README.md'', ''package.json''], manifest_exists = True,
          manifest = Inl SyntaxError\<rparr>" "[''README.md'', ''package.json'']"] n v
    by simp
qed

lemma detect_marker_file:
  "detectProjectType \<lparr>root_listing = Inr [''next.config.mjs''], manifest_exists = False,
                      manifest = Inl SyntaxError\<rparr> = Inr ''nextjs''"
  by code_simp

section \<open>Properties of the commit message validator\<close>

lemma remove_first_prefix: "remove_first pat (pat @ rest) = rest"
proof (cases "pat @ rest")
  case Nil
  then show ?thesis by simp
next
  case (Cons a list)
  have "take (length pat) (a # list) = pat" "drop (length pat) (a # list) = rest"
    using Cons by (metis append_eq_conv_conj)+
  then show ?thesis using Cons by simp
qed

lemma parse_of_match:
  assumes "regexp_exec pattern msg = Inr (Some (Some (matched) # groups))"
  shows "parseCommitMessage msg pattern =
           Inr (Some \<lparr>p_type = nth_opt groups 0,
                      p_scope = (case nth_opt groups 1 of
                                   None \<Rightarrow> None
                                 | Some sp \<Rightarrow> if sp = [] then None
                                     else Some (filter (\<lambda>c. c \<noteq> CHR ''('' \<and> c \<noteq> CHR '')'') sp)),
                      p_description = trim (remove_first matched msg),
                      p_raw = msg\<rparr>)"
  using assms by (simp add: parseCommitMessage_def nth_opt_def)

text \<open>
  C8. With the default pattern, \<open>feat(button): add variant\<close> should parse to type
  \<open>feat\<close>, scope \<open>button\<close> and description \<open>add variant\<close>. The pattern ends in \<open>.+\<close>,
  so the matched text is the whole line, and removing it leaves the empty description.
\<close>

theorem parse_description_empty:
  "parseCommitMessage ''feat(button): add variant'' default_pattern =
     Inr (Some \<lparr>p_type = Some ''feat'', p_scope = Some ''button'', p_description = [],
                p_raw = ''feat(button): add variant''\<rparr>)"
  by code_simp

text \<open>
  C10. A pattern value that is neither a regular expression nor a string gives the
  built-in default, without an error.
\<close>

theorem parsePattern_default:
  assumes "\<not> (\<exists>re. pattern = JRegExp re)" and "\<not> (\<exists>s. pattern = JStr s)"
  shows "parsePattern compile pattern = Inr default_pattern"
  using assms by (cases pattern) (auto simp: parsePattern_def)

theorem parsePattern_default_witness:
  "parsePattern (\<lambda>source flags. None) JUndef = Inr default_pattern \<and>
   parsePattern (\<lambda>source flags. None) (JNum 42) = Inr default_pattern \<and>
   regexp_test default_pattern ''fix: typo'' = Inr True"
proof -
  have t: "regexp_test default_pattern ''fix: typo'' = Inr True" by code_simp
  show ?thesis
    using parsePattern_default[of JUndef "\<lambda>source flags. None"]
      parsePattern_default[of "JNum 42" "\<lambda>source flags. None"] t
    by simp
qed

section \<open>Properties of the resolver\<close>




















declare deepMerge.simps [simp del] merge_value.simps [simp del]























text \<open>
  C2. In the production environment the overlay lists \<open>test\<close> for pre-push with
  \<open>enabled: true\<close>; the default list has it with \<open>enabled: false\<close>. The resolved list
  keeps the first occurrence after concatenation, which is the default's object: the
  higher-priority definition is dropped.
\<close>

theorem resolved_checks_keep_default:
  "map_sum id (\<lambda>cfg. opt_prop (opt_prop cfg ''prePush'') ''checks'')
     (getConfig (example_penv (Some ''production'')) ''common'' (JObj []))
   = Inr (JArr [check_with ''build'' True True [(''production'', JBool False), (''sourceMap'', JBool True)],
               check_with ''test'' False False [(''watch'', JBool False), (''coverage'', JBool False)]])"
  by code_simp

lemma mergeArrays_later_wins:
  "mergeArrays [descriptor ''a'' True True] [descriptor ''a'' False True, descriptor ''b'' True True]
     = Inr [descriptor ''a'' False True, descriptor ''b'' True True]"
  by code_simp




section \<open>Properties of the merge engine on a store\<close>

lemma unchanged_refl: "unchanged h h"
  by (simp add: unchanged_def)

lemma unchanged_length: "unchanged h h' \<Longrightarrow> length h \<le> length h'"
proof -
  assume "unchanged h h'"
  then have "length (take (length h) h') = length h" by (simp add: unchanged_def)
  then show ?thesis by simp
qed

lemma unchanged_trans: "unchanged h h1 \<Longrightarrow> unchanged h1 h2 \<Longrightarrow> unchanged h h2"
proof -
  assume a: "unchanged h h1" and b: "unchanged h1 h2"
  have le: "length h \<le> length h1" using a by (rule unchanged_length)
  have "take (length h) h2 = take (length h) (take (length h1) h2)"
    using le by (simp add: min_def)
  also have "\<dots> = take (length h) h1" using b by (simp add: unchanged_def)
  also have "\<dots> = h" using a by (simp add: unchanged_def)
  finally show ?thesis by (simp add: unchanged_def)
qed

lemma unchanged_nth: "unchanged h h' \<Longrightarrow> a < length h \<Longrightarrow> h' ! a = h ! a"
  unfolding unchanged_def by (metis nth_take)

lemma unchanged_append: "unchanged h (h @ cs)"
  by (simp add: unchanged_def)

lemma unchanged_update: "unchanged h0 h \<Longrightarrow> length h0 \<le> a \<Longrightarrow> unchanged h0 (h[a := c])"
  by (simp add: unchanged_def)

lemma mergeArrays_h_frame:
  assumes "mergeArrays_h h arr1 arr2 = (r, h')"
  shows "unchanged h h' \<and> (\<forall>v. r = Inr v \<longrightarrow> v = HRef (length h) \<and> length h < length h')"
  using assms
  by (auto simp: mergeArrays_h_def alloc_def unchanged_refl unchanged_append split: sum.splits)

lemma merge_value_h_frame:
  assumes "frame_ok rec" and "merge_value_h rec h target key sv = (r, h')"
  shows "unchanged h h'"
proof (cases "h_isObject h sv")
  case True
  show ?thesis
  proof (cases "h_has_own h target key")
    case own: True
    then have "rec h (h_prop h target key) sv = (r, h')"
      using assms(2) True by (simp add: merge_value_h_def)
    then show ?thesis using assms(1) unfolding frame_ok_def by blast
  next
    case False
    then show ?thesis
      using assms(2) True
      by (cases "h_inherited h target key")
         (auto simp: merge_value_h_def alloc_def unchanged_refl unchanged_append)
  qed
next
  case False
  show ?thesis
  proof (cases "h_isArray h sv \<and> h_isArray h (h_prop h target key)")
    case True
    then have "mergeArrays_h h (h_prop h target key) sv = (r, h')"
      using assms(2) False by (simp add: merge_value_h_def)
    then show ?thesis using mergeArrays_h_frame by blast
  next
    case nonarr: False
    then show ?thesis
      using assms(2) False by (auto simp: merge_value_h_def unchanged_refl)
  qed
qed

lemma h_set_prop_frame:
  assumes "h_set_prop h out key v = Inr h2" and "unchanged h0 h" and "length h0 \<le> out"
  shows "unchanged h0 h2 \<and> length h2 = length h"
  using assms
  by (auto simp: h_set_prop_def unchanged_update split: option.splits cell.splits if_splits)

lemma mergeProps_h_frame:
  "frame_ok rec \<Longrightarrow> mergeProps_h rec h target source keys out = (r, h') \<Longrightarrow>
   unchanged h0 h \<Longrightarrow> length h0 \<le> out \<Longrightarrow> unchanged h0 h' \<and> length h \<le> length h'"
proof (induction keys arbitrary: h)
  case Nil
  then show ?case by simp
next
  case (Cons key keys)
  obtain r1 h1 where mv: "merge_value_h rec h target key (h_prop h source key) = (r1, h1)"
    by (cases "merge_value_h rec h target key (h_prop h source key)")
  have u1: "unchanged h h1" using merge_value_h_frame[OF Cons.prems(1) mv] .
  have u01: "unchanged h0 h1" using Cons.prems(3) u1 by (rule unchanged_trans)
  have l1: "length h \<le> length h1" using u1 by (rule unchanged_length)
  show ?case
  proof (cases r1)
    case (Inl e)
    then show ?thesis using Cons.prems(2) mv u01 l1 by simp
  next
    case (Inr v)
    show ?thesis
    proof (cases "h_set_prop h1 out key v")
      case sp: (Inl e)
      then show ?thesis using Cons.prems(2) mv Inr u01 l1 by simp
    next
      case sp: (Inr h2)
      have u2: "unchanged h0 h2 \<and> length h2 = length h1"
        using h_set_prop_frame[OF sp u01 Cons.prems(4)] .
      have "mergeProps_h rec h2 target source keys out = (r, h')"
        using Cons.prems(2) mv Inr sp by simp
      then have "unchanged h0 h' \<and> length h2 \<le> length h'"
        using Cons.IH[OF Cons.prems(1) _ _ Cons.prems(4)] u2 by blast
      then show ?thesis using u2 l1 by simp
    qed
  qed
qed

lemma deepMerge_h_frame:
  "deepMerge_h n h target source = (r, h') \<Longrightarrow>
   unchanged h h' \<and> (\<forall>v. r = Inr v \<longrightarrow> v = HRef (length h) \<and> length h < length h')"
proof (induction n arbitrary: h target source r h')
  case 0
  then show ?case by (auto simp: unchanged_refl)
next
  case (Suc n)
  have rec_ok: "frame_ok (deepMerge_h n)"
    unfolding frame_ok_def using Suc.IH by blast
  let ?h1 = "h @ [CObj (define_props [] (h_own_props h target))]"
  have u1: "unchanged h ?h1" by (rule unchanged_append)
  show ?case
  proof (cases "h_isObject ?h1 target \<and> h_isObject ?h1 source")
    case True
    obtain r2 h2 where mp: "mergeProps_h (deepMerge_h n) ?h1 target source
        (map fst (h_own_props ?h1 source)) (length h) = (r2, h2)"
      by (cases "mergeProps_h (deepMerge_h n) ?h1 target source
        (map fst (h_own_props ?h1 source)) (length h)")
    have f: "unchanged h h2 \<and> length ?h1 \<le> length h2"
      using mergeProps_h_frame[OF rec_ok mp u1] by simp
    have res: "h' = h2 \<and> (\<forall>v. r = Inr v \<longrightarrow> v = HRef (length h))"
      using Suc.prems True mp by (cases r2) (auto simp: alloc_def)
    show ?thesis using f res by auto
  next
    case False
    then have "r = Inr (HRef (length h)) \<and> h' = ?h1"
      using Suc.prems by (auto simp: alloc_def)
    then show ?thesis using u1 by simp
  qed
qed

lemma all_some_cong:
  "all_some (map f xs) = Some ts \<Longrightarrow> (\<And>x t. x \<in> set xs \<Longrightarrow> f x = Some t \<Longrightarrow> g x = Some t) \<Longrightarrow>
   all_some (map g xs) = Some ts"
proof (induction xs arbitrary: ts)
  case Nil
  then show ?case by simp
next
  case (Cons x xs)
  from Cons.prems(1) obtain t ts' where fx: "f x = Some t"
    and rest: "all_some (map f xs) = Some ts'" and ts: "ts = t # ts'"
    by (cases "f x") auto
  have "g x = Some t" using Cons.prems(2)[of x t] fx by simp
  moreover have "all_some (map g xs) = Some ts'"
    using Cons.IH[OF rest] Cons.prems(2) by simp
  ultimately show ?case using ts by simp
qed

lemma cell_at_unchanged:
  "unchanged h h' \<Longrightarrow> cell_at h v = Some c \<Longrightarrow> cell_at h' v = Some c"
proof (cases v)
  case (HRef a)
  assume u: "unchanged h h'" and c: "cell_at h v = Some c"
  have a: "a < length h" and hc: "h ! a = c" using c HRef by (auto split: if_splits)
  have "a < length h'" using a unchanged_length[OF u] by simp
  then show ?thesis using HRef hc unchanged_nth[OF u a] by simp
qed auto

lemma read_back_unchanged:
  "unchanged h h' \<Longrightarrow> read_back n h v = Some t \<Longrightarrow> read_back n h' v = Some t"
proof (induction n arbitrary: v t)
  case 0
  then show ?case by (cases v) auto
next
  case (Suc n)
  show ?case
  proof (cases v)
    case (HRef a)
    from Suc.prems(2) HRef obtain c where c: "cell_at h (HRef a) = Some c"
      by (cases "cell_at h (HRef a)") auto
    have c': "cell_at h' (HRef a) = Some c"
      using cell_at_unchanged[OF Suc.prems(1) c] .
    show ?thesis
    proof (cases c)
      case (CObj ps)
      from Suc.prems(2) HRef c CObj obtain ts where
        ts: "all_some (map (\<lambda>(k, x). map_option (Pair k) (read_back n h x)) ps) = Some ts"
        and t: "t = JObj ts"
        by auto
      have "all_some (map (\<lambda>(k, x). map_option (Pair k) (read_back n h' x)) ps) = Some ts"
      proof (rule all_some_cong[OF ts])
        fix p q
        assume "p \<in> set ps" and q: "(case p of (k, x) \<Rightarrow> map_option (Pair k) (read_back n h x)) = Some q"
        obtain k x where p: "p = (k, x)" by (cases p)
        from q p obtain tx where "read_back n h x = Some tx" and "q = (k, tx)" by auto
        then show "(case p of (k, x) \<Rightarrow> map_option (Pair k) (read_back n h' x)) = Some q"
          using Suc.IH[OF Suc.prems(1)] p by simp
      qed
      then show ?thesis using HRef c' CObj t by simp
    next
      case (CArr xs)
      from Suc.prems(2) HRef c CArr obtain ts where
        ts: "all_some (map (read_back n h) xs) = Some ts" and t: "t = JArr ts"
        by auto
      have "all_some (map (read_back n h') xs) = Some ts"
        using all_some_cong[OF ts] Suc.IH[OF Suc.prems(1)] by blast
      then show ?thesis using HRef c' CArr t by simp
    next
      case (CRegExp re)
      then show ?thesis using Suc.prems(2) HRef c c' by simp
    qed
  qed (use Suc.prems in auto)
qed

text \<open>
  The fuel is adequate: a source that is a tree of depth \<open>n\<close> never exhausts
  \<open>Suc n\<close> levels of calls, and \<open>JSON.stringify\<close> never exhausts its own.
\<close>

lemma collect_Inl: "collect rs = Inl e \<Longrightarrow> Inl e \<in> set rs"
proof (induction rs)
  case Nil
  then show ?case by simp
next
  case (Cons r rs)
  then show ?case by (cases r) (auto split: sum.splits)
qed

lemma stack_bound:
  assumes "distinct stack" and "set stack \<subseteq> {..<n}"
  shows "length stack \<le> n"
proof -
  have "length stack = card (set stack)" using assms(1) by (simp add: distinct_card)
  also have "\<dots> \<le> card {..<n}" using assms(2) by (intro card_mono) auto
  finally show ?thesis by simp
qed

lemma stringify_h_no_overflow:
  "distinct stack \<Longrightarrow> set stack \<subseteq> {..<length h} \<Longrightarrow> length h < fuel + length stack \<Longrightarrow>
   stringify_h fuel h stack v \<noteq> Inl StackOverflow"
proof (induction fuel arbitrary: stack v)
  case 0
  then show ?case
    using stack_bound[of stack "length h"] by (cases v) (auto simp: number_text_def)
next
  case (Suc n)
  show ?case
  proof (cases v)
    case (HRef a)
    show ?thesis
    proof (cases "a \<in> set stack")
      case True
      then show ?thesis using HRef by simp
    next
      case False
      show ?thesis
      proof (cases "cell_at h (HRef a)")
        case None
        then show ?thesis using HRef False by simp
      next
        case (Some c)
        then have a: "a < length h" by (auto split: if_splits)
        have ih: "\<And>x. stringify_h n h (a # stack) x \<noteq> Inl StackOverflow"
          using Suc.IH[of "a # stack"] Suc.prems False a by auto
        show ?thesis
        proof (cases c)
          case (CObj ps)
          have "collect (map (\<lambda>(k, x). map_sum id (Pair k) (stringify_h n h (a # stack) x)) ps)
                  \<noteq> Inl StackOverflow"
          proof
            assume "collect (map (\<lambda>(k, x). map_sum id (Pair k) (stringify_h n h (a # stack) x)) ps)
                      = Inl StackOverflow"
            then have "Inl StackOverflow
                \<in> set (map (\<lambda>(k, x). map_sum id (Pair k) (stringify_h n h (a # stack) x)) ps)"
              by (rule collect_Inl)
            then obtain p :: "string \<times> hval" where
              pe: "Inl StackOverflow =
                     (case p of (k, x) \<Rightarrow> map_sum id (Pair k) (stringify_h n h (a # stack) x))"
              by auto
            obtain k x where p: "p = (k, x)" by (cases p)
            show False
              using pe p ih[of x] by (cases "stringify_h n h (a # stack) x") auto
          qed
          then show ?thesis using HRef False Some CObj by (auto split: sum.splits)
        next
          case (CArr xs)
          have "collect (map (stringify_h n h (a # stack)) xs) \<noteq> Inl StackOverflow"
            using collect_Inl ih by fastforce
          then show ?thesis using HRef False Some CArr by (auto split: sum.splits)
        next
          case (CRegExp re)
          then show ?thesis using HRef False Some by simp
        qed
      qed
    qed
  qed (auto simp: number_text_def)
qed

lemma h_fill_map_no_overflow: "h_fill_map h items m \<noteq> Inl StackOverflow"
proof (induction items arbitrary: m)
  case Nil
  show ?case by simp
next
  case (Cons item items)
  have "h_item_key h item \<noteq> Inl StackOverflow"
    using stringify_h_no_overflow[of "[]" h "Suc (length h)" item]
    by (auto simp: h_item_key_def split: sum.splits option.splits)
  then show ?case using Cons.IH by (auto split: sum.splits)
qed

lemma mergeArrays_h_no_overflow: "fst (mergeArrays_h h arr1 arr2) \<noteq> Inl StackOverflow"
  using h_fill_map_no_overflow
  by (auto simp: mergeArrays_h_def h_elems_def alloc_def
           split: sum.splits hval.splits option.splits cell.splits)

lemma merge_value_h_no_overflow:
  assumes "no_overflow m rec" and "read_back m h sv \<noteq> None"
  shows "fst (merge_value_h rec h target key sv) \<noteq> Inl StackOverflow"
  using assms mergeArrays_h_no_overflow[of h "h_prop h target key" sv]
  by (auto simp: merge_value_h_def no_overflow_def alloc_def split: inherited.splits)

lemma h_prop_unchanged:
  "unchanged h0 h \<Longrightarrow> cell_at h0 s = Some c \<Longrightarrow> h_prop h s key = h_prop h0 s key"
  using cell_at_unchanged[of h0 h s c] by (simp add: h_prop_def)

lemma mergeProps_h_no_overflow:
  "frame_ok rec \<Longrightarrow> no_overflow m rec \<Longrightarrow> unchanged h0 h \<Longrightarrow> length h0 \<le> out \<Longrightarrow>
   cell_at h0 source = Some c \<Longrightarrow>
   (\<And>key. key \<in> set keys \<Longrightarrow> read_back m h0 (h_prop h0 source key) \<noteq> None) \<Longrightarrow>
   fst (mergeProps_h rec h target source keys out) \<noteq> Inl StackOverflow"
proof (induction keys arbitrary: h)
  case Nil
  show ?case by simp
next
  case (Cons key keys)
  let ?sv = "h_prop h source key"
  have sv: "?sv = h_prop h0 source key"
    using h_prop_unchanged[OF Cons.prems(3,5)] .
  have "read_back m h0 ?sv \<noteq> None" using Cons.prems(6)[of key] sv by simp
  then have rb: "read_back m h ?sv \<noteq> None"
    using read_back_unchanged[OF Cons.prems(3)] by auto
  obtain r1 h1 where mv: "merge_value_h rec h target key ?sv = (r1, h1)"
    by (cases "merge_value_h rec h target key ?sv")
  have r1: "r1 \<noteq> Inl StackOverflow"
    using merge_value_h_no_overflow[OF Cons.prems(2) rb, of target key] mv by simp
  have u01: "unchanged h0 h1"
    using unchanged_trans[OF Cons.prems(3) merge_value_h_frame[OF Cons.prems(1) mv]] .
  show ?case
  proof (cases r1)
    case (Inl e)
    then show ?thesis using mv r1 by simp
  next
    case (Inr v)
    show ?thesis
    proof (cases "h_set_prop h1 out key v")
      case sp: (Inl e)
      then have "e = Unmodelled"
        by (auto simp: h_set_prop_def split: option.splits cell.splits if_splits)
      then show ?thesis using mv Inr sp by simp
    next
      case sp: (Inr h2)
      have u2: "unchanged h0 h2" using h_set_prop_frame[OF sp u01 Cons.prems(4)] by simp
      have "fst (mergeProps_h rec h2 target source keys out) \<noteq> Inl StackOverflow"
        using Cons.IH[OF Cons.prems(1,2) u2 Cons.prems(4,5)] Cons.prems(6) by simp
      then show ?thesis using mv Inr sp by simp
    qed
  qed
qed

lemma all_some_mem:
  "all_some (map f xs) = Some ts \<Longrightarrow> x \<in> set xs \<Longrightarrow> f x \<noteq> None"
proof (induction xs arbitrary: ts)
  case Nil
  then show ?case by simp
next
  case (Cons y ys)
  then show ?case by (cases "f y") auto
qed

lemma deepMerge_h_fuel_suffices:
  "read_back n h source \<noteq> None \<Longrightarrow> fst (deepMerge_h (Suc n) h target source) \<noteq> Inl StackOverflow"
proof (induction n arbitrary: h target source)
  case 0
  then have "\<not> h_isObject (h @ [c]) source" for c
    by (cases source) (auto simp: h_isObject_def)
  then show ?case by (simp add: alloc_def)
next
  case (Suc m)
  let ?cell = "CObj (define_props [] (h_own_props h target))"
  let ?h1 = "h @ [?cell]"
  have u1: "unchanged h ?h1" by (rule unchanged_append)
  have rec_frame: "frame_ok (deepMerge_h (Suc m))"
    unfolding frame_ok_def using deepMerge_h_frame by blast
  have rec_ok: "no_overflow m (deepMerge_h (Suc m))"
    unfolding no_overflow_def using Suc.IH by blast
  show ?case
  proof (cases "h_isObject ?h1 target \<and> h_isObject ?h1 source")
    case False
    then show ?thesis by (auto simp: alloc_def)
  next
    case True
    then obtain a where src: "source = HRef a" by (cases source) (auto simp: h_isObject_def)
    from Suc.prems src obtain c where c: "cell_at h source = Some c"
      by (cases "cell_at h (HRef a)") auto
    have c1: "cell_at ?h1 source = Some c" using cell_at_unchanged[OF u1 c] .
    have keys_ok: "read_back m h (h_prop h source key) \<noteq> None"
      if "key \<in> set (map fst (h_own_props ?h1 source))" for key
    proof (cases c)
      case (CObj ps)
      from that have k: "key \<in> fst ` set ps"
        using c1 CObj src by (simp add: h_own_props_def)
      then obtain x where mx: "map_of ps key = Some x"
        by (metis map_of_eq_None_iff not_Some_eq)
      then have mem: "(key, x) \<in> set ps" by (rule map_of_SomeD)
      from Suc.prems src c CObj obtain ts where
        "all_some (map (\<lambda>(k, x). map_option (Pair k) (read_back m h x)) ps) = Some ts"
        by (auto split: if_splits)
      then have "(case (key, x) of (k, x) \<Rightarrow> map_option (Pair k) (read_back m h x)) \<noteq> None"
        using all_some_mem mem by fast
      then have "read_back m h x \<noteq> None" by simp
      moreover have "h_prop h source key = x" using c CObj mx by (simp add: h_prop_def)
      ultimately show ?thesis by simp
    next
      case (CArr xs)
      then show ?thesis using True c1 by (simp add: h_isObject_def)
    next
      case (CRegExp re)
      then show ?thesis using that c1 src by (simp add: h_own_props_def)
    qed
    have "fst (mergeProps_h (deepMerge_h (Suc m)) ?h1 target source
                 (map fst (h_own_props ?h1 source)) (length h)) \<noteq> Inl StackOverflow"
    proof (rule mergeProps_h_no_overflow[OF rec_frame rec_ok u1 _ c])
      show "length h \<le> length h" by simp
    next
      fix key
      assume "key \<in> set (map fst (h_own_props ?h1 source))"
      then show "read_back m h (h_prop h source key) \<noteq> None" by (rule keys_ok)
    qed
    then show ?thesis
      using True by (auto simp: alloc_def split: prod.splits sum.splits)
  qed
qed

text \<open>
  C9. Whatever \<open>deepMerge\<close> or \<open>mergeArrays\<close> does (return, throw, or exhaust the stack),
  every cell of the store it was given is the same afterwards, so the trees read from
  both arguments are the same; and a returned value is the address of a cell created
  by the call.
\<close>

theorem merge_never_mutates:
  assumes "deepMerge_h fuel h target source = (r, h') \<or> mergeArrays_h h target source = (r, h')"
  shows "length h \<le> length h' \<and> (\<forall>a<length h. h' ! a = h ! a) \<and>
         (\<forall>n t. read_back n h target = Some t \<longrightarrow> read_back n h' target = Some t) \<and>
         (\<forall>n t. read_back n h source = Some t \<longrightarrow> read_back n h' source = Some t) \<and>
         (\<forall>v. r = Inr v \<longrightarrow> v = HRef (length h) \<and> length h < length h')"
proof -
  have u: "unchanged h h'"
    and f: "\<forall>v. r = Inr v \<longrightarrow> v = HRef (length h) \<and> length h < length h'"
    using assms deepMerge_h_frame mergeArrays_h_frame by blast+
  show ?thesis
    using u f unchanged_length[OF u] unchanged_nth[OF u] read_back_unchanged[OF u] by blast
qed

theorem merge_never_mutates_witness:
  "fst (deepMerge_h 5 ex_store (HRef 0) (HRef 4)) = Inr (HRef 8) \<and>
   take 8 (snd (deepMerge_h 5 ex_store (HRef 0) (HRef 4))) = ex_store \<and>
   length (snd (deepMerge_h 5 ex_store (HRef 0) (HRef 4))) = 11 \<and>
   read_back 3 (snd (deepMerge_h 5 ex_store (HRef 0) (HRef 4))) (HRef 0) = read_back 3 ex_store (HRef 0) \<and>
   read_back 3 (snd (deepMerge_h 5 ex_store (HRef 0) (HRef 4))) (HRef 8) =
     Some (JObj [(''a'', JNum 1), (''c'', JObj [(''x'', JNum 1), (''y'', JNum 2)]),
                 (''l'', JArr [JStr ''m'', JObj [(''name'', JStr ''q'')], JStr ''z'']),
                 (''b'', JNum 2)])"
proof -
  let ?r = "deepMerge_h 5 ex_store (HRef 0) (HRef 4)"
  have e: "deepMerge_h 5 ex_store (HRef 0) (HRef 4) = (fst ?r, snd ?r)" by simp
  have v: "fst ?r = Inr (HRef 8)" by code_simp
  have l: "length (snd ?r) = 11" by code_simp
  have t: "take 8 (snd ?r) = ex_store" by code_simp
  have rb: "read_back 3 (snd ?r) (HRef 8) =
     Some (JObj [(''a'', JNum 1), (''c'', JObj [(''x'', JNum 1), (''y'', JNum 2)]),
                 (''l'', JArr [JStr ''m'', JObj [(''name'', JStr ''q'')], JStr ''z'']),
                 (''b'', JNum 2)])" by code_simp
  have rt: "read_back 3 ex_store (HRef 0) \<noteq> None" by code_simp
  show ?thesis
    using merge_never_mutates[of 5 ex_store "HRef 0" "HRef 4" "fst ?r" "snd ?r"] e v l t rb rt
    by auto
qed

end
